theory Spec2Isabelle
  imports Complex_Main "HOL-Library.Log_Nat"
begin

section \<open>JavaScript values used by the scheduler\<close>

text \<open>
  Strings are lists of characters; a character stands for the code unit of the same
  number (below 256). Message texts are kept as in the source, except that the
  emoji and box-drawing glyphs in them are left out.

  A number of the configuration is what \<open>parseInt\<close> can return: \<open>NaN\<close> or an
  integer. \<open>Num n\<close> stands for the double nearest to \<open>n\<close>, which is \<open>n\<close> itself
  as long as \<open>\<bar>n\<bar> \<le> 2^53\<close>.
\<close>

datatype number = NaN | Num int

text \<open>ToBoolean on a number: zero and NaN are falsy.\<close>

fun number_truthy :: "number \<Rightarrow> bool" where
  "number_truthy NaN = False"
| "number_truthy (Num n) = (n \<noteq> 0)"

definition digit_char :: "nat \<Rightarrow> char" where
  "digit_char d = ''0123456789'' ! d"

function show_nat :: "nat \<Rightarrow> string" where
  "show_nat n = (if n < 10 then [digit_char n] else show_nat (n div 10) @ [digit_char (n mod 10)])"
  by pat_completeness auto
termination
  by (relation "measure id") auto

declare show_nat.simps [simp del]

text \<open>
  ToString on a number, as a template literal applies it. An integer up to \<open>2^53\<close>
  in absolute value is held exactly by a double and is printed by its decimal
  digits. Beyond \<open>2^53\<close> JavaScript prints the digits of the double nearest to
  \<open>n\<close>, from \<open>10^21\<close> on in exponent notation, and \<open>Infinity\<close> beyond the range of
  doubles; that text is not modelled, it is the parameter \<open>beyond\<close>.
\<close>

fun number_to_string :: "(int \<Rightarrow> string) \<Rightarrow> number \<Rightarrow> string" where
  "number_to_string beyond NaN = ''NaN''"
| "number_to_string beyond (Num n) =
     (if \<bar>n\<bar> \<le> 2 ^ 53
      then (if n < 0 then ''-'' @ show_nat (nat (- n)) else show_nat (nat n))
      else beyond n)"

text \<open>White space that \<open>parseInt\<close> skips: TAB, LF, VT, FF, CR, SP and NBSP.\<close>

definition is_white_space :: "char \<Rightarrow> bool" where
  "is_white_space c = ((of_char c :: nat) \<in> {9, 10, 11, 12, 13, 32, 160})"

definition digit_of :: "char \<Rightarrow> nat option" where
  "digit_of c =
     (let n = (of_char c :: nat) in
      if 48 \<le> n \<and> n \<le> 57 then Some (n - 48)
      else if 97 \<le> n \<and> n \<le> 122 then Some (n - 87)
      else if 65 \<le> n \<and> n \<le> 90 then Some (n - 55)
      else None)"

definition is_radix_digit :: "nat \<Rightarrow> char \<Rightarrow> bool" where
  "is_radix_digit R c = (case digit_of c of None \<Rightarrow> False | Some d \<Rightarrow> d < R)"

definition digits_value :: "nat \<Rightarrow> string \<Rightarrow> nat" where
  "digits_value R Z = foldl (\<lambda>acc c. acc * R + (case digit_of c of None \<Rightarrow> 0 | Some d \<Rightarrow> d)) 0 Z"

text \<open>
  \<open>parseInt(string, radix)\<close> of ECMAScript; \<open>None\<close> is a call without the radix
  argument. Leading white space is skipped, a sign is read, a \<open>0x\<close> prefix is
  stripped when the radix is 16 or not given, and the longest prefix of digits is
  the value; no digit at all gives \<open>NaN\<close>.
\<close>

definition parseInt :: "string \<Rightarrow> nat option \<Rightarrow> number" where
  "parseInt str radix =
     (let s = dropWhile is_white_space str;
          neg = (case s of [] \<Rightarrow> False | c # _ \<Rightarrow> c = CHR ''-'');
          s1 = (case s of [] \<Rightarrow> [] | c # cs \<Rightarrow> if c = CHR ''+'' \<or> c = CHR ''-'' then cs else s);
          R0 = (case radix of None \<Rightarrow> 0 | Some r \<Rightarrow> r)
      in if R0 \<noteq> 0 \<and> (R0 < 2 \<or> 36 < R0) then NaN
         else
           let hex = ((R0 = 0 \<or> R0 = 16) \<and> (take 2 s1 = ''0x'' \<or> take 2 s1 = ''0X''));
               R = (if hex then 16 else if R0 = 0 then 10 else R0);
               s2 = (if hex then drop 2 s1 else s1);
               Z = takeWhile (is_radix_digit R) s2
           in if Z = [] then NaN
              else Num ((if neg then - 1 else 1) * int (digits_value R Z)))"

text \<open>The idiom \<open>x || d\<close> on an optional string: undefined and the empty string give \<open>d\<close>.\<close>

definition or_default :: "string option \<Rightarrow> string \<Rightarrow> string" where
  "or_default x d = (case x of None \<Rightarrow> d | Some s \<Rightarrow> if s = [] then d else s)"

text \<open>
  Parsed JSON. A number is kept by its value, an object as the list of its members
  (the keys distinct).
\<close>

datatype json =
    JNull
  | JBool bool
  | JNum rat
  | JStr string
  | JArr "json list"
  | JObj "(string \<times> json) list"

text \<open>
  Console output and HTTP requests are recorded as a trace of events. The arguments
  of a console call are kept as pieces: literal text and the values interpolated
  into it, the values not rendered.
\<close>

datatype piece =
    Lit string
  | NumV number
  | CountV nat
  | MillisV int
  | IsoTimeV int
  | QuotV number int
  | JsonV "json option"

datatype event =
    console_log "piece list"
  | console_error "piece list"
  | console_warn "piece list"
  | http_POST string "(string \<times> string) list" "string option"

definition is_http :: "event \<Rightarrow> bool" where
  "is_http e = (case e of http_POST _ _ _ \<Rightarrow> True | _ \<Rightarrow> False)"

definition http_calls :: "event list \<Rightarrow> event list" where
  "http_calls evs = filter is_http evs"

section \<open>config.ts: the configuration of the single-endpoint scheduler\<close>

type_synonym env = "string \<rightharpoonup> string"

record SchedulerConfig =
  interval :: number
  schedulerSecret :: string
  appUrl :: string
  appPort :: "number option"

text \<open>
  \<open>loadConfig\<close> returns the configuration, or ends the process with
  \<open>Deno.exit(1)\<close>: \<open>Inl 1\<close>. The first component is what it printed.
\<close>

definition loadConfig :: "env \<Rightarrow> event list \<times> (nat + SchedulerConfig)" where
  "loadConfig env =
     (let interval = parseInt (or_default (env ''SCHEDULER_INTERVAL'') ''30000'') (Some 10);
          schedulerSecret = or_default (env ''SCHEDULER_SECRET'') '''';
          appUrl = or_default (env ''APP_URL'') ''http://localhost'';
          appPort = (case env ''APP_PORT'' of
                       None \<Rightarrow> None
                     | Some p \<Rightarrow> if p = [] then None else Some (parseInt p (Some 10)))
      in if schedulerSecret = []
         then ([console_error [Lit ''ERROR: SCHEDULER_SECRET environment variable is required''],
                console_error [Lit ''Please set SCHEDULER_SECRET in your .env file or environment'']],
               Inl 1)
         else ([], Inr \<lparr>interval = interval, schedulerSecret = schedulerSecret,
                        appUrl = appUrl, appPort = appPort\<rparr>))"

definition buildEndpointUrl :: "(int \<Rightarrow> string) \<Rightarrow> SchedulerConfig \<Rightarrow> string" where
  "buildEndpointUrl beyond config =
     (let base = (case appPort config of
                    None \<Rightarrow> appUrl config
                  | Some p \<Rightarrow> if number_truthy p
                              then appUrl config @ '':'' @ number_to_string beyond p
                              else appUrl config)
      in base @ ''/api/scheduler/trigger'')"

text \<open>Comparison \<open>x < k\<close> of a number with an integer constant: false on NaN.\<close>

fun number_less :: "number \<Rightarrow> int \<Rightarrow> bool" where
  "number_less NaN k = False"
| "number_less (Num n) k = (n < k)"

definition validateConfig :: "SchedulerConfig \<Rightarrow> event list" where
  "validateConfig config =
     (if number_less (interval config) 1000
      then [console_warn [Lit ''WARNING: Interval is less than 1 second. This may cause high load.'']]
      else []) @
     (if number_less (interval config) 5000
      then [console_warn [Lit ''WARNING: Interval is less than 5 seconds. Consider using a longer interval.'']]
      else [])"

section \<open>Double-precision arithmetic of the success rate\<close>

text \<open>
  A finite double is modelled by its value, a rational. \<open>to_double\<close> rounds a
  rational to the nearest double (53 significant bits, ties to even); the exponent
  range is not modelled, the values in use lie between \<open>2^-53\<close> and \<open>100\<close>.
\<close>

definition exponent :: "rat \<Rightarrow> int" where
  "exponent x =
     (let (a, b) = quotient_of x; d = bitlen a - bitlen b
      in if 2 powi d \<le> x then d else d - 1)"

definition round_half_even :: "rat \<Rightarrow> int" where
  "round_half_even m =
     (let f = \<lfloor>m\<rfloor>; d = m - of_int f
      in if d < 1 / 2 then f else if 1 / 2 < d then f + 1 else if even f then f else f + 1)"

definition to_double :: "rat \<Rightarrow> rat" where
  "to_double x =
     (if x = 0 then 0
      else let u = 2 powi (exponent \<bar>x\<bar> - 52) in of_int (round_half_even (x / u)) * u)"

definition double_div :: "rat \<Rightarrow> rat \<Rightarrow> rat" where
  "double_div a b = to_double (a / b)"

definition double_mul :: "rat \<Rightarrow> rat \<Rightarrow> rat" where
  "double_mul a b = to_double (a * b)"

text \<open>
  \<open>x.toFixed(1)\<close> for a double \<open>0 \<le> x < 10^21\<close>: the integer \<open>n\<close> with \<open>n / 10\<close>
  nearest to \<open>x\<close>, the larger one of two, printed with one digit after the point.
\<close>

definition toFixed1_tenths :: "rat \<Rightarrow> nat" where
  "toFixed1_tenths x = nat \<lfloor>10 * x + 1 / 2\<rfloor>"

definition show_tenths :: "nat \<Rightarrow> string" where
  "show_tenths n = show_nat (n div 10) @ ''.'' @ show_nat (n mod 10)"

definition toFixed1 :: "rat \<Rightarrow> string" where
  "toFixed1 x = show_tenths (toFixed1_tenths x)"

text \<open>
  The spec's words for the success rate: \<open>round(successful / total * 100, 1)\<close>,
  in exact arithmetic and as a number of tenths; a value halfway between two tenths
  is rounded up. \<open>rounding_tie\<close> says that the exact percentage is such a value.
\<close>

definition rounded_percentage_tenths :: "nat \<Rightarrow> nat \<Rightarrow> int" where
  "rounded_percentage_tenths successful_n total_n =
     \<lfloor>10 * (of_nat successful_n / of_nat total_n * 100 :: rat) + 1 / 2\<rfloor>"

definition rounding_tie :: "nat \<Rightarrow> nat \<Rightarrow> bool" where
  "rounding_tie successful_n total_n =
     (total_n dvd 2000 * successful_n \<and> odd (2000 * successful_n div total_n))"

section \<open>scheduler.ts: the single-endpoint trigger\<close>

datatype trigger_status = success | failed

text \<open>
  The module's variables, and the trace of what the process has printed and
  requested so far.
\<close>

record state =
  totalTriggers :: nat
  successfulTriggers :: nat
  failedTriggers :: nat
  lastTriggerTime :: "int option"
  lastStatus :: "trigger_status option"
  trace :: "event list"

definition initial_state :: state where
  "initial_state = \<lparr>totalTriggers = 0, successfulTriggers = 0, failedTriggers = 0,
                      lastTriggerTime = None, lastStatus = None, trace = []\<rparr>"

definition emit :: "event list \<Rightarrow> state \<Rightarrow> state" where
  "emit evs s = s\<lparr>trace := trace s @ evs\<rparr>"

text \<open>
  A thrown value is an \<open>Error\<close> object with its message, or another value with the
  string that \<open>String\<close> makes of it. An awaited promise is fulfilled or rejected.
\<close>

datatype thrown = ErrorObject string | OtherValue string

datatype 'a settled = Fulfilled 'a | Rejected thrown

datatype completion = Normal | Throw thrown

text \<open>
  A response carries its status line and what reading its body gives:
  \<open>json_result\<close> is the outcome of \<open>response.json()\<close> and \<open>text_result\<close> that of
  \<open>response.text()\<close>.
\<close>

record Response =
  status :: nat
  statusText :: string
  json_result :: "json settled"
  text_result :: "string settled"

definition ok :: "Response \<Rightarrow> bool" where
  "ok response = (200 \<le> status response \<and> status response \<le> 299)"

text \<open>
  What one call of \<open>triggerScheduler\<close> reads from its environment: the clock at
  its three readings and in \<open>new Date()\<close>, and the outcome of \<open>fetch\<close>.
\<close>

record tick_io =
  now_start :: int
  now_date :: int
  now_response :: int
  now_catch :: int
  fetched :: "Response settled"

definition error_text :: "thrown \<Rightarrow> string" where
  "error_text e = (case e of ErrorObject message \<Rightarrow> message | OtherValue s \<Rightarrow> s)"

definition success_rate :: "nat \<Rightarrow> nat \<Rightarrow> piece" where
  "success_rate successful_n total_n =
     (if total_n > 0
      then Lit (toFixed1 (double_mul (double_div (of_nat successful_n) (of_nat total_n)) 100))
      else CountV 0)"

definition print_statistics :: "state \<Rightarrow> event list" where
  "print_statistics s =
     [console_log [Lit []],
      console_log [Lit ''-------------------------------------''],
      console_log [Lit ''SCHEDULER STATISTICS''],
      console_log [Lit ''-------------------------------------''],
      console_log [Lit ''Total Triggers: '', CountV (totalTriggers s)],
      console_log [Lit ''Successful: '', CountV (successfulTriggers s)],
      console_log [Lit ''Failed: '', CountV (failedTriggers s)],
      console_log [Lit ''Success Rate: '',
                   success_rate (successfulTriggers s) (totalTriggers s), Lit ''%''],
      console_log [Lit ''-------------------------------------''],
      console_log [Lit []]]"

text \<open>The \<open>try\<close> block of \<open>triggerScheduler\<close>: the state it leaves is kept when it throws.\<close>

definition trigger_try :: "string \<Rightarrow> string \<Rightarrow> tick_io \<Rightarrow> state \<Rightarrow> completion \<times> state" where
  "trigger_try endpointUrl secret io s =
     (let s1 = emit [http_POST endpointUrl
                       [(''Content-Type'', ''application/json''), (''X-Scheduler-Secret'', secret)]
                       (Some ''{}'')] s
      in case fetched io of
           Rejected e \<Rightarrow> (Throw e, s1)
         | Fulfilled response \<Rightarrow>
             let duration = now_response io - now_start io
             in if ok response
                then (case json_result response of
                        Rejected e \<Rightarrow> (Throw e, s1)
                      | Fulfilled result \<Rightarrow>
                          (Normal,
                           emit [console_log [Lit ''[Scheduler] Trigger successful''],
                                 console_log [Lit ''[Scheduler] Duration: '', MillisV duration, Lit ''ms''],
                                 console_log [Lit ''[Scheduler] Response:'', JsonV (Some result)]]
                             (s1\<lparr>successfulTriggers := successfulTriggers s1 + 1,
                                 lastStatus := Some success\<rparr>)))
                else (let s2 = s1\<lparr>failedTriggers := failedTriggers s1 + 1,
                                    lastStatus := Some failed\<rparr>
                      in case text_result response of
                           Rejected e \<Rightarrow> (Throw e, s2)
                         | Fulfilled errorText \<Rightarrow>
                             (Normal,
                              emit [console_error [Lit ''[Scheduler] Trigger failed''],
                                    console_error [Lit ''[Scheduler] Status: '', CountV (status response),
                                                   Lit '' '', Lit (statusText response)],
                                    console_error [Lit ''[Scheduler] Duration: '', MillisV duration, Lit ''ms''],
                                    console_error [Lit ''[Scheduler] Error: '', Lit errorText]]
                                s2)))"

text \<open>The \<open>catch\<close> block.\<close>

definition trigger_catch :: "thrown \<Rightarrow> tick_io \<Rightarrow> state \<Rightarrow> completion \<times> state" where
  "trigger_catch error io s =
     (let duration = now_catch io - now_start io
      in (Normal,
          emit [console_error [Lit ''[Scheduler] Request error''],
                console_error [Lit ''[Scheduler] Duration: '', MillisV duration, Lit ''ms''],
                console_error [Lit ''[Scheduler] Error:'', Lit (error_text error)]]
            (s\<lparr>failedTriggers := failedTriggers s + 1, lastStatus := Some failed\<rparr>)))"

definition triggerScheduler :: "string \<Rightarrow> string \<Rightarrow> tick_io \<Rightarrow> state \<Rightarrow> completion \<times> state" where
  "triggerScheduler endpointUrl secret io s =
     (let s0 = s\<lparr>totalTriggers := totalTriggers s + 1, lastTriggerTime := Some (now_date io)\<rparr>;
          s1 = emit [console_log [Lit []],
                     console_log [Lit ''[Scheduler] Triggering scheduler endpoint...''],
                     console_log [Lit ''[Scheduler] Target: '', Lit endpointUrl],
                     console_log [Lit ''[Scheduler] Time: '', IsoTimeV (now_date io)]] s0;
          (c, s2) = (case trigger_try endpointUrl secret io s1 of
                       (Throw e, s') \<Rightarrow> trigger_catch e io s'
                     | (Normal, s') \<Rightarrow> (Normal, s'))
      in case c of
           Throw e \<Rightarrow> (Throw e, s2)
         | Normal \<Rightarrow> (Normal, emit (print_statistics s2) s2))"

text \<open>
  The ticks of the repeating timer, one after the other. A tick that throws leaves
  a rejected promise nobody handles, which ends the process.
\<close>

datatype process = Exited nat | Scheduled | Crashed thrown

fun timer_ticks :: "string \<Rightarrow> string \<Rightarrow> tick_io list \<Rightarrow> state \<Rightarrow> process \<times> state" where
  "timer_ticks endpointUrl secret [] s = (Scheduled, s)"
| "timer_ticks endpointUrl secret (io # ios) s =
     (case triggerScheduler endpointUrl secret io s of
        (Throw e, s') \<Rightarrow> (Crashed e, s')
      | (Normal, s') \<Rightarrow> timer_ticks endpointUrl secret ios s')"

text \<open>
  \<open>main\<close>, observed up to the ticks given: \<open>io0\<close> is read by the trigger at
  startup, \<open>ios\<close> by the ticks of the timer. An error escaping \<open>main\<close> is caught
  at the call and ends the process with \<open>Deno.exit(1)\<close>. The parameter \<open>beyond\<close>
  is that of \<open>number_to_string\<close>.
\<close>

definition main ::
  "(int \<Rightarrow> string) \<Rightarrow> env \<Rightarrow> tick_io \<Rightarrow> tick_io list \<Rightarrow> process \<times> state" where
  "main beyond env io0 ios =
     (let s0 = emit [console_log [Lit []],
                     console_log [Lit ''=====================================''],
                     console_log [Lit ''LOCAL SCHEDULER SERVICE''],
                     console_log [Lit ''=====================================''],
                     console_log [Lit ''Mimics Google Cloud Scheduler''],
                     console_log [Lit ''Mode: Development''],
                     console_log [Lit ''=====================================''],
                     console_log [Lit []]] initial_state
      in case loadConfig env of
           (out, Inl code) \<Rightarrow> (Exited code, emit out s0)
         | (out, Inr config) \<Rightarrow>
             let endpointUrl = buildEndpointUrl beyond config;
                 s1 = emit (out @ validateConfig config @
                       [console_log [Lit ''CONFIGURATION''],
                        console_log [Lit ''-------------------------------------''],
                        console_log [Lit ''Interval: '', NumV (interval config), Lit ''ms ('',
                                     QuotV (interval config) 1000, Lit ''s)''],
                        console_log [Lit ''Endpoint: '', Lit endpointUrl],
                        console_log [Lit ''Secret: '', Lit (take 10 (schedulerSecret config)), Lit ''...''],
                        console_log [Lit ''-------------------------------------''],
                        console_log [Lit []],
                        console_log [Lit ''Scheduler service started''],
                        console_log [Lit ''Will trigger endpoint every '',
                                     QuotV (interval config) 1000, Lit '' seconds''],
                        console_log [Lit ''Press Ctrl+C to stop''],
                        console_log [Lit []]]) s0
             in (case triggerScheduler endpointUrl (schedulerSecret config) io0 s1 of
                   (Throw e, s2) \<Rightarrow>
                     (Exited 1, emit [console_error [Lit ''Fatal error:'', Lit (error_text e)]] s2)
                 | (Normal, s2) \<Rightarrow> timer_ticks endpointUrl (schedulerSecret config) ios s2))"

text \<open>The handler of SIGINT prints the final statistics and ends the process with code 0.\<close>

definition on_SIGINT :: "state \<Rightarrow> process \<times> state" where
  "on_SIGINT s =
     (Exited 0,
      emit [console_log [Lit []],
            console_log [Lit ''Scheduler service stopping...''],
            console_log [Lit []],
            console_log [Lit ''FINAL STATISTICS''],
            console_log [Lit ''-------------------------------------''],
            console_log [Lit ''Total Triggers: '', CountV (totalTriggers s)],
            console_log [Lit ''Successful: '', CountV (successfulTriggers s)],
            console_log [Lit ''Failed: '', CountV (failedTriggers s)],
            console_log [Lit ''-------------------------------------''],
            console_log [Lit []],
            console_log [Lit ''Goodbye!'']] s)"

section \<open>The multi-endpoint scheduler (queries, cleanups, outputs)\<close>

text \<open>
  The second scheduler has a configuration type and a \<open>loadConfig\<close> of its own;
  they carry the suffix \<open>_multi\<close> here.
\<close>

record SchedulerConfig_multi =
  symposiumUrl :: string
  checkInterval :: number
  authToken :: "string option"

text \<open>Which global the environment is read from: \<open>process\<close>, \<open>Deno\<close>, or neither.\<close>

datatype js_runtime = NodeProcess | DenoRuntime | NoRuntime

definition getEnv :: "js_runtime \<Rightarrow> env \<Rightarrow> string \<Rightarrow> string option" where
  "getEnv rt env key =
     (case rt of NodeProcess \<Rightarrow> env key | DenoRuntime \<Rightarrow> env key | NoRuntime \<Rightarrow> None)"

definition loadConfig_multi :: "js_runtime \<Rightarrow> env \<Rightarrow> SchedulerConfig_multi" where
  "loadConfig_multi rt env =
     \<lparr>symposiumUrl = or_default (getEnv rt env ''SYMPOSIUM_URL'') ''http://localhost:80'',
      checkInterval = parseInt (or_default (getEnv rt env ''CHECK_INTERVAL_MS'') ''60000'') None,
      authToken = getEnv rt env ''AUTH_TOKEN''\<rparr>"

subsection \<open>Reading a parsed response\<close>

text \<open>ToBoolean on a parsed value; \<open>None\<close> is \<open>undefined\<close>.\<close>

fun truthy :: "json \<Rightarrow> bool" where
  "truthy JNull = False"
| "truthy (JBool b) = b"
| "truthy (JNum x) = (x \<noteq> 0)"
| "truthy (JStr s) = (s \<noteq> [])"
| "truthy (JArr _) = True"
| "truthy (JObj _) = True"

definition truthy_opt :: "json option \<Rightarrow> bool" where
  "truthy_opt v = (case v of None \<Rightarrow> False | Some w \<Rightarrow> truthy w)"

text \<open>
  \<open>v.key\<close> for one of the field names the scheduler reads, on a value that is
  not \<open>null\<close>: only an object has such a property. On \<open>null\<close> the read throws.
\<close>

definition property :: "json \<Rightarrow> string \<Rightarrow> json option" where
  "property v key = (case v of JObj members \<Rightarrow> map_of members key | _ \<Rightarrow> None)"

definition optional_property :: "json option \<Rightarrow> string \<Rightarrow> json option" where
  "optional_property v key = (case v of None \<Rightarrow> None | Some JNull \<Rightarrow> None | Some w \<Rightarrow> property w key)"

definition or_value :: "json option \<Rightarrow> json \<Rightarrow> json" where
  "or_value v d = (case v of None \<Rightarrow> d | Some w \<Rightarrow> if truthy w then w else d)"

text \<open>
  \<open>v > 0\<close>. On a number and a boolean it is decided here; on a string and an array
  JavaScript converts the value to a number first, and that conversion is the
  parameter \<open>gt0\<close>. An object converts to NaN, \<open>null\<close> to zero.
\<close>

definition greater_zero :: "(json \<Rightarrow> bool) \<Rightarrow> json \<Rightarrow> bool" where
  "greater_zero gt0 v =
     (case v of
        JNum x \<Rightarrow> 0 < x
      | JBool b \<Rightarrow> b
      | JNull \<Rightarrow> False
      | JObj _ \<Rightarrow> False
      | JStr _ \<Rightarrow> gt0 v
      | JArr _ \<Rightarrow> gt0 v)"

datatype endpoint = Queries | Cleanups | Outputs

fun path :: "endpoint \<Rightarrow> string" where
  "path Queries = ''/api/scheduler/trigger''"
| "path Cleanups = ''/api/scheduler/trigger-cleanups''"
| "path Outputs = ''/api/scheduler/trigger-outputs''"

fun tag :: "endpoint \<Rightarrow> string" where
  "tag Queries = ''[Queries]''"
| "tag Cleanups = ''[Cleanups]''"
| "tag Outputs = ''[Outputs]''"

fun noun :: "endpoint \<Rightarrow> bool \<Rightarrow> string" where
  "noun Queries one = (if one then ''query'' else ''queries'')"
| "noun Cleanups one = (if one then ''cleanup'' else ''cleanups'')"
| "noun Outputs one = (if one then ''output'' else ''outputs'')"

text \<open>
  The line printed for one entry of \<open>results\<close>; the check mark and the cross of
  the source are written \<open>[v]\<close> and \<open>[x]\<close>.
\<close>

fun result_line :: "endpoint \<Rightarrow> json \<Rightarrow> piece list" where
  "result_line Queries result =
     [Lit ''  '', Lit (if truthy_opt (property result ''success'') then ''[v]'' else ''[x]''), Lit '' '',
      JsonV (property result ''query_name''), Lit '' ('', JsonV (property result ''query_id''), Lit '')'']"
| "result_line Cleanups result =
     [Lit ''  '', Lit (if truthy_opt (property result ''success'') then ''[v]'' else ''[x]''), Lit '' '',
      JsonV (property result ''cleanup_name''), Lit '' ('', JsonV (property result ''cleanup_id''),
      Lit ''): Deleted '', JsonV (property result ''deleted_count''), Lit '' card(s)'']"
| "result_line Outputs result =
     [Lit ''  '', Lit (if truthy_opt (property result ''success'') then ''[v]'' else ''[x]''), Lit '' '',
      JsonV (property result ''output_name''), Lit '' ('', JsonV (property result ''output_id''),
      Lit ''): Sent '', JsonV (property result ''sent_count''), Lit '' card(s)'']"

text \<open>The callback of \<open>forEach\<close>: reading a field of a \<open>null\<close> entry throws.\<close>

definition report_result :: "endpoint \<Rightarrow> json \<Rightarrow> thrown + event list" where
  "report_result ep result =
     (case result of
        JNull \<Rightarrow> Inl (ErrorObject ''Cannot read properties of null'')
      | _ \<Rightarrow> Inr (console_log (result_line ep result) #
                  (if truthy_opt (property result ''error'')
                   then [console_log [Lit ''    Error: '', JsonV (property result ''error'')]]
                   else [])))"

fun for_each_result :: "endpoint \<Rightarrow> json list \<Rightarrow> event list \<times> completion" where
  "for_each_result ep [] = ([], Normal)"
| "for_each_result ep (result # results) =
     (case report_result ep result of
        Inl e \<Rightarrow> ([], Throw e)
      | Inr evs \<Rightarrow> (case for_each_result ep results of (evs', c) \<Rightarrow> (evs @ evs', c)))"

text \<open>What a trigger function does with the parsed body \<open>data\<close>.\<close>

definition report_data :: "(json \<Rightarrow> bool) \<Rightarrow> endpoint \<Rightarrow> json \<Rightarrow> event list \<times> completion" where
  "report_data gt0 ep data =
     (case data of
        JNull \<Rightarrow> ([], Throw (ErrorObject ''Cannot read properties of null''))
      | _ \<Rightarrow>
        if truthy_opt (property data ''success'')
        then
          let executedCount = or_value (optional_property (property data ''data'') ''executed_count'') (JNum 0)
          in if greater_zero gt0 executedCount
             then
               let line = console_log [Lit (tag ep), Lit '' Executed '', JsonV (Some executedCount),
                                       Lit '' scheduled '', Lit (noun ep (executedCount = JNum 1))];
                   results = optional_property (property data ''data'') ''results''
               in if truthy_opt results
                  then (case results of
                          Some (JArr rs) \<Rightarrow>
                            (case for_each_result ep rs of (evs, c) \<Rightarrow> (line # evs, c))
                        | _ \<Rightarrow> ([line], Throw (ErrorObject ''data.data.results.forEach is not a function'')))
                  else ([line], Normal)
             else ([console_log [Lit (tag ep), Lit '' No '', Lit (noun ep False),
                                 Lit '' due for execution'']], Normal)
        else ([console_error [Lit (tag ep), Lit '' Error: '',
                              JsonV (Some (or_value (property data ''error'') (JStr ''Unknown error'')))]],
              Normal))"

subsection \<open>The three trigger functions\<close>

text \<open>
  \<open>triggerQueries\<close>, \<open>triggerCleanups\<close> and \<open>triggerOutputs\<close> are the same function
  up to the path, the tag and the line per result. \<open>request\<close> is the call of
  \<open>fetch\<close>; \<open>after_fetch\<close> is the rest of the \<open>try\<close> block, run when the awaited
  \<open>fetch\<close> has settled.
\<close>

definition request :: "endpoint \<Rightarrow> SchedulerConfig_multi \<Rightarrow> event" where
  "request ep config =
     (let url = symposiumUrl config @ path ep;
          headers = (case authToken config of
                       None \<Rightarrow> []
                     | Some token \<Rightarrow> if token = [] then []
                                     else [(''Authorization'', ''Bearer '' @ token)])
      in http_POST url headers None)"

definition after_fetch :: "(json \<Rightarrow> bool) \<Rightarrow> endpoint \<Rightarrow> Response settled \<Rightarrow> event list \<times> completion" where
  "after_fetch gt0 ep fetched_response =
     (case fetched_response of
        Rejected e \<Rightarrow> ([], Throw e)
      | Fulfilled response \<Rightarrow>
          if \<not> ok response
          then ([console_error [Lit (tag ep), Lit '' HTTP error: '', CountV (status response),
                                Lit '' '', Lit (statusText response)]], Normal)
          else (case json_result response of
                  Rejected e \<Rightarrow> ([], Throw e)
                | Fulfilled data \<Rightarrow> report_data gt0 ep data))"

text \<open>The \<open>catch\<close> block turns what the \<open>try\<close> block throws into a line of output.\<close>

definition catch_block :: "endpoint \<Rightarrow> event list \<times> completion \<Rightarrow> event list \<times> completion" where
  "catch_block ep r =
     (case r of
        (evs, Throw e) \<Rightarrow>
          (evs @ [console_error [Lit (tag ep), Lit '' Failed to trigger check:'', Lit (error_text e)]],
           Normal)
      | (evs, Normal) \<Rightarrow> (evs, Normal))"

definition settle :: "(json \<Rightarrow> bool) \<Rightarrow> endpoint \<Rightarrow> Response settled \<Rightarrow> event list \<times> completion" where
  "settle gt0 ep fetched_response = catch_block ep (after_fetch gt0 ep fetched_response)"

definition trigger_endpoint ::
  "(json \<Rightarrow> bool) \<Rightarrow> endpoint \<Rightarrow> SchedulerConfig_multi \<Rightarrow> Response settled \<Rightarrow> event list \<times> completion" where
  "trigger_endpoint gt0 ep config fetched_response =
     (case settle gt0 ep fetched_response of (evs, c) \<Rightarrow> (request ep config # evs, c))"

definition triggerQueries ::
  "(json \<Rightarrow> bool) \<Rightarrow> SchedulerConfig_multi \<Rightarrow> Response settled \<Rightarrow> event list \<times> completion" where
  "triggerQueries gt0 = trigger_endpoint gt0 Queries"

definition triggerCleanups ::
  "(json \<Rightarrow> bool) \<Rightarrow> SchedulerConfig_multi \<Rightarrow> Response settled \<Rightarrow> event list \<times> completion" where
  "triggerCleanups gt0 = trigger_endpoint gt0 Cleanups"

definition triggerOutputs ::
  "(json \<Rightarrow> bool) \<Rightarrow> SchedulerConfig_multi \<Rightarrow> Response settled \<Rightarrow> event list \<times> completion" where
  "triggerOutputs gt0 = trigger_endpoint gt0 Outputs"

text \<open>What one tick reads: the clock, and how each of its three requests settles.\<close>

record check_io =
  checked_at :: int
  queries_fetched :: "Response settled"
  cleanups_fetched :: "Response settled"
  outputs_fetched :: "Response settled"

text \<open>
  \<open>triggerCheck\<close> run to its end: the three awaited calls in sequence. A call that
  throws would end the function there.
\<close>

definition triggerCheck ::
  "(json \<Rightarrow> bool) \<Rightarrow> SchedulerConfig_multi \<Rightarrow> check_io \<Rightarrow> event list \<times> completion" where
  "triggerCheck gt0 config io =
     (let evs0 = [console_log [Lit [CHR 0x0A], Lit ''['', IsoTimeV (checked_at io), Lit ''] Checking for scheduled tasks...'']]
      in case triggerQueries gt0 config (queries_fetched io) of
           (evs1, Throw e) \<Rightarrow> (evs0 @ evs1, Throw e)
         | (evs1, Normal) \<Rightarrow>
             (case triggerCleanups gt0 config (cleanups_fetched io) of
                (evs2, Throw e) \<Rightarrow> (evs0 @ evs1 @ evs2, Throw e)
              | (evs2, Normal) \<Rightarrow>
                  (case triggerOutputs gt0 config (outputs_fetched io) of
                     (evs3, c) \<Rightarrow> (evs0 @ evs1 @ evs2 @ evs3, c))))"

subsection \<open>The scheduler object and the event loop around it\<close>

record LocalScheduler =
  config :: SchedulerConfig_multi
  running :: bool
  intervalId :: "nat option"

definition new_LocalScheduler :: "SchedulerConfig_multi \<Rightarrow> LocalScheduler" where
  "new_LocalScheduler c = \<lparr>config = c, running = False, intervalId = None\<rparr>"

definition isRunning :: "LocalScheduler \<Rightarrow> bool" where
  "isRunning this = running this"

text \<open>
  \<open>triggerCheck\<close> is asynchronous and \<open>start\<close> and the timer do not await it: a
  call runs up to the first \<open>fetch\<close> and is suspended there; it goes on when the
  \<open>fetch\<close> settles, up to the next \<open>fetch\<close>. The event loop holds the scheduler
  object, the handles of the armed interval timers, the suspended ticks (each
  waiting for the \<open>fetch\<close> of an endpoint), the history of output and requests so
  far, and the errors thrown out of a tick.
\<close>

record event_loop =
  scheduler :: LocalScheduler
  timers :: "nat list"
  next_handle :: nat
  in_flight :: "endpoint list"
  history :: "event list"
  unhandled :: "thrown list"

definition boot :: "SchedulerConfig_multi \<Rightarrow> event_loop" where
  "boot c = \<lparr>scheduler = new_LocalScheduler c, timers = [], next_handle = 0,
             in_flight = [], history = [], unhandled = []\<rparr>"

definition append_events :: "event list \<Rightarrow> event_loop \<Rightarrow> event_loop" where
  "append_events evs l = l\<lparr>history := history l @ evs\<rparr>"

text \<open>A call of \<open>triggerCheck\<close>, up to its first \<open>await\<close> of a \<open>fetch\<close>.\<close>

definition triggerCheck_call :: "int \<Rightarrow> event_loop \<Rightarrow> event_loop" where
  "triggerCheck_call now l =
     (append_events [console_log [Lit [CHR 0x0A], Lit ''['', IsoTimeV now, Lit ''] Checking for scheduled tasks...''],
             request Queries (config (scheduler l))] l)
       \<lparr>in_flight := in_flight l @ [Queries]\<rparr>"

fun next_endpoint :: "endpoint \<Rightarrow> endpoint option" where
  "next_endpoint Queries = Some Cleanups"
| "next_endpoint Cleanups = Some Outputs"
| "next_endpoint Outputs = None"

text \<open>
  The \<open>fetch\<close> awaited by the \<open>k\<close>-th suspended tick settles: the tick finishes the
  trigger function it is in and calls the next one, or ends.
\<close>

definition fetch_settles :: "(json \<Rightarrow> bool) \<Rightarrow> nat \<Rightarrow> Response settled \<Rightarrow> event_loop \<Rightarrow> event_loop" where
  "fetch_settles gt0 k fetched_response l =
     (if k < length (in_flight l)
      then
        let ep = in_flight l ! k
        in case settle gt0 ep fetched_response of
             (evs, Throw e) \<Rightarrow>
               (append_events evs l)\<lparr>in_flight := take k (in_flight l) @ drop (Suc k) (in_flight l),
                              unhandled := unhandled l @ [e]\<rparr>
           | (evs, Normal) \<Rightarrow>
               (case next_endpoint ep of
                  Some ep' \<Rightarrow>
                    (append_events (evs @ [request ep' (config (scheduler l))]) l)
                      \<lparr>in_flight := (in_flight l)[k := ep']\<rparr>
                | None \<Rightarrow>
                    (append_events evs l)\<lparr>in_flight := take k (in_flight l) @ drop (Suc k) (in_flight l)\<rparr>)
      else l)"

definition start :: "int \<Rightarrow> event_loop \<Rightarrow> event_loop" where
  "start now l =
     (if running (scheduler l)
      then append_events [console_log [Lit ''[Scheduler] Already running'']] l
      else
        let l1 = (append_events [console_log [Lit ''[Scheduler] Starting with '',
                                      NumV (checkInterval (config (scheduler l))), Lit ''ms interval''],
                         console_log [Lit ''[Scheduler] Target URL: '',
                                      Lit (symposiumUrl (config (scheduler l)))]] l)
                   \<lparr>scheduler := (scheduler l)\<lparr>running := True\<rparr>\<rparr>;
            l2 = triggerCheck_call now l1;
            h = next_handle l2
        in l2\<lparr>scheduler := (scheduler l2)\<lparr>intervalId := Some h\<rparr>,
               timers := timers l2 @ [h],
               next_handle := Suc h\<rparr>)"

definition stop :: "event_loop \<Rightarrow> event_loop" where
  "stop l =
     (if \<not> running (scheduler l)
      then append_events [console_log [Lit ''[Scheduler] Not running'']] l
      else
        let l1 = l\<lparr>scheduler := (scheduler l)\<lparr>running := False\<rparr>\<rparr>;
            l2 = (case intervalId (scheduler l1) of
                    None \<Rightarrow> l1
                  | Some h \<Rightarrow> l1\<lparr>timers := removeAll h (timers l1),
                                 scheduler := (scheduler l1)\<lparr>intervalId := None\<rparr>\<rparr>)
        in append_events [console_log [Lit ''[Scheduler] Stopped'']] l2)"

text \<open>The timer with handle \<open>h\<close> fires: its callback calls \<open>triggerCheck\<close>.\<close>

definition timer_fires :: "nat \<Rightarrow> int \<Rightarrow> event_loop \<Rightarrow> event_loop" where
  "timer_fires h now l = (if h \<in> set (timers l) then triggerCheck_call now l else l)"

datatype action =
    CallStart int
  | CallStop
  | TimerFires nat int
  | FetchSettles nat "Response settled"

fun step :: "(json \<Rightarrow> bool) \<Rightarrow> event_loop \<Rightarrow> action \<Rightarrow> event_loop" where
  "step gt0 l (CallStart now) = start now l"
| "step gt0 l CallStop = stop l"
| "step gt0 l (TimerFires h now) = timer_fires h now l"
| "step gt0 l (FetchSettles k r) = fetch_settles gt0 k r l"

definition run :: "(json \<Rightarrow> bool) \<Rightarrow> action list \<Rightarrow> event_loop \<Rightarrow> event_loop" where
  "run gt0 acts l = foldl (step gt0) l acts"

definition is_start :: "action \<Rightarrow> bool" where
  "is_start a = (case a of CallStart _ \<Rightarrow> True | _ \<Rightarrow> False)"

text \<open>The requests a suspended tick has still to make.\<close>

fun remaining :: "endpoint \<Rightarrow> nat" where
  "remaining Queries = 2"
| "remaining Cleanups = 1"
| "remaining Outputs = 0"

section \<open>Outcomes of a tick, and concrete inputs\<close>

definition is_console_error :: "event \<Rightarrow> bool" where
  "is_console_error e = (case e of console_error _ \<Rightarrow> True | _ \<Rightarrow> False)"

text \<open>
  The failures of a tick of the single-endpoint scheduler: the request is rejected
  (transport error), the status is not 2xx, or the body of a 2xx response cannot be
  read as JSON.
\<close>

definition is_failure :: "tick_io \<Rightarrow> bool" where
  "is_failure io =
     (case fetched io of
        Rejected _ \<Rightarrow> True
      | Fulfilled response \<Rightarrow>
          if ok response
          then (case json_result response of Rejected _ \<Rightarrow> True | Fulfilled _ \<Rightarrow> False)
          else True)"

fun is_positive_integer :: "number \<Rightarrow> bool" where
  "is_positive_integer NaN = False"
| "is_positive_integer (Num n) = (0 < n)"

text \<open>A response with status 500 whose body cannot be read (the connection breaks).\<close>

definition response_500_body_unreadable :: Response where
  "response_500_body_unreadable =
     \<lparr>status = 500, statusText = ''Internal Server Error'',
      json_result = Rejected (ErrorObject ''error reading a body from connection''),
      text_result = Rejected (ErrorObject ''error reading a body from connection'')\<rparr>"

definition io_500_body_unreadable :: tick_io where
  "io_500_body_unreadable =
     \<lparr>now_start = 1000, now_date = 1000, now_response = 1040, now_catch = 1050,
      fetched = Fulfilled response_500_body_unreadable\<rparr>"

text \<open>A response with status 200 and a body that is not JSON.\<close>

definition response_200_not_json :: Response where
  "response_200_not_json =
     \<lparr>status = 200, statusText = ''OK'',
      json_result = Rejected (ErrorObject ''Unexpected token < in JSON at position 0''),
      text_result = Fulfilled ''<html></html>''\<rparr>"

definition io_200_not_json :: tick_io where
  "io_200_not_json =
     \<lparr>now_start = 1000, now_date = 1000, now_response = 1040, now_catch = 1050,
      fetched = Fulfilled response_200_not_json\<rparr>"

text \<open>A response with status 200 and the JSON body \<open>[1, 2]\<close>.\<close>

definition response_200_json :: Response where
  "response_200_json =
     \<lparr>status = 200, statusText = ''OK'',
      json_result = Fulfilled (JArr [JNum 1, JNum 2]),
      text_result = Fulfilled ''[1, 2]''\<rparr>"

definition io_200_json :: tick_io where
  "io_200_json =
     \<lparr>now_start = 1000, now_date = 1000, now_response = 1040, now_catch = 1050,
      fetched = Fulfilled response_200_json\<rparr>"

definition io_connection_refused :: tick_io where
  "io_connection_refused =
     \<lparr>now_start = 1000, now_date = 1000, now_response = 1040, now_catch = 1050,
      fetched = Rejected (ErrorObject ''Connection refused'')\<rparr>"

text \<open>
  A text for numbers beyond \<open>2^53\<close>, where an argument has to be concrete; none of
  the inputs below has such a number.
\<close>

definition some_rendering :: "int \<Rightarrow> string" where
  "some_rendering n = ''Infinity''"

text \<open>Environments: the secret alone, with a negative interval, and with port 0.\<close>

definition env_secret :: env where
  "env_secret = [''SCHEDULER_SECRET'' \<mapsto> ''s3cret'']"

definition env_negative_interval :: env where
  "env_negative_interval = [''SCHEDULER_SECRET'' \<mapsto> ''s3cret'', ''SCHEDULER_INTERVAL'' \<mapsto> ''-5'']"


text \<open>Inputs for the multi-endpoint scheduler.\<close>

definition config_multi_default :: SchedulerConfig_multi where
  "config_multi_default =
     \<lparr>symposiumUrl = ''http://localhost:80'', checkInterval = Num 60000, authToken = None\<rparr>"

definition never_gt0 :: "json \<Rightarrow> bool" where
  "never_gt0 v = False"

definition connection_refused :: "Response settled" where
  "connection_refused = Rejected (ErrorObject ''Connection refused'')"

text \<open>The requests a suspended tick has still to make, and those of all suspended ticks.\<close>

definition pending_requests :: "event_loop \<Rightarrow> nat" where
  "pending_requests l = sum_list (map remaining (in_flight l))"

text \<open>
  What holds of the event loop between two of its steps: the scheduler is running
  exactly when it holds a timer handle, the armed timers are that handle and no
  other, and handles still to be given out are fresh.
\<close>

definition loop_invariant :: "event_loop \<Rightarrow> bool" where
  "loop_invariant l =
     ((running (scheduler l) \<longleftrightarrow> intervalId (scheduler l) \<noteq> None)
      \<and> timers l = (case intervalId (scheduler l) of None \<Rightarrow> [] | Some h \<Rightarrow> [h])
      \<and> (\<forall>h \<in> set (timers l). h < next_handle l))"

text \<open>The line a tick prints first, and the steps in which a \<open>fetch\<close> settles.\<close>

definition check_line :: "int \<Rightarrow> event" where
  "check_line now =
     console_log [Lit [CHR 0x0A], Lit ''['', IsoTimeV now, Lit ''] Checking for scheduled tasks...'']"

definition is_settle :: "action \<Rightarrow> bool" where
  "is_settle a = (case a of FetchSettles _ _ \<Rightarrow> True | _ \<Rightarrow> False)"

section \<open>The single-endpoint trigger: counting and errors\<close>

lemma triggerScheduler_Normal: "fst (triggerScheduler u k io s) = Normal"
  by (auto simp: triggerScheduler_def trigger_catch_def Let_def split: prod.splits completion.splits)

lemma triggerScheduler_total:
  "totalTriggers (snd (triggerScheduler u k io s)) = totalTriggers s + 1"
  by (auto simp: triggerScheduler_def trigger_try_def trigger_catch_def emit_def Let_def
      split: prod.splits completion.splits settled.splits if_splits)

lemma timer_ticks_Scheduled: "fst (timer_ticks u k ios s) = Scheduled"
proof (induction ios arbitrary: s)
  case Nil
  show ?case by simp
next
  case (Cons io ios)
  obtain c s' where r: "triggerScheduler u k io s = (c, s')"
    by (cases "triggerScheduler u k io s")
  with triggerScheduler_Normal [of u k io s] have "c = Normal" by simp
  with r Cons show ?case by simp
qed

lemma timer_ticks_total:
  "totalTriggers (snd (timer_ticks u k ios s)) = totalTriggers s + length ios"
proof (induction ios arbitrary: s)
  case Nil
  show ?case by simp
next
  case (Cons io ios)
  obtain c s' where r: "triggerScheduler u k io s = (c, s')"
    by (cases "triggerScheduler u k io s")
  with triggerScheduler_Normal [of u k io s] have c: "c = Normal" by simp
  from r triggerScheduler_total [of u k io s] have "totalTriggers s' = totalTriggers s + 1" by simp
  with r c Cons [of s'] show ?case by simp
qed

lemma triggerScheduler_failure:
  assumes "is_failure io"
  shows "failedTriggers s < failedTriggers (snd (triggerScheduler u k io s))"
    and "lastStatus (snd (triggerScheduler u k io s)) = Some failed"
    and "\<exists>evs. trace (snd (triggerScheduler u k io s)) = trace s @ evs \<and>
               (\<exists>e \<in> set evs. is_console_error e)"
  using assms
  by (auto simp: is_failure_def triggerScheduler_def trigger_try_def trigger_catch_def emit_def
      Let_def is_console_error_def split: prod.splits completion.splits settled.splits if_splits)

text \<open>
  An attempt is counted once, as a success or as a failure, unless the response has
  a status outside 2xx and reading its body fails: that attempt is counted as two
  failures.
\<close>

lemma triggerScheduler_counts_once:
  assumes "\<And>response e. fetched io = Fulfilled response \<Longrightarrow> \<not> ok response \<Longrightarrow>
             text_result response \<noteq> Rejected e"
  shows "successfulTriggers (snd (triggerScheduler u k io s)) +
         failedTriggers (snd (triggerScheduler u k io s)) =
         successfulTriggers s + failedTriggers s + 1"
  using assms
  by (auto simp: triggerScheduler_def trigger_try_def trigger_catch_def emit_def Let_def
      split: prod.splits completion.splits settled.splits if_splits)

lemma triggerScheduler_counts_twice:
  assumes "fetched io = Fulfilled response" and "\<not> ok response"
    and "text_result response = Rejected e"
  shows "failedTriggers (snd (triggerScheduler u k io s)) = failedTriggers s + 2"
    and "successfulTriggers (snd (triggerScheduler u k io s)) = successfulTriggers s"
  using assms
  by (auto simp: triggerScheduler_def trigger_try_def trigger_catch_def emit_def Let_def
      split: prod.splits completion.splits settled.splits if_splits)

text \<open>
  C1. After a call of \<open>triggerScheduler\<close> the counters should satisfy
  \<open>totalTriggers = successfulTriggers + failedTriggers\<close>, each attempt counted
  once, also when reading the body of an error response fails. On a response with
  status 500 whose body cannot be read, the call started from the initial counters
  leaves \<open>totalTriggers = 1\<close> and \<open>failedTriggers = 2\<close>: the branch for the
  status counts the failure before it reads the body, and the handler counts it
  again.
\<close>

theorem C1_failed_counted_twice:
  "totalTriggers (snd (triggerScheduler ''http://localhost/api/scheduler/trigger'' ''s3cret''
       io_500_body_unreadable initial_state)) = 1
   \<and> successfulTriggers (snd (triggerScheduler ''http://localhost/api/scheduler/trigger'' ''s3cret''
       io_500_body_unreadable initial_state)) = 0
   \<and> failedTriggers (snd (triggerScheduler ''http://localhost/api/scheduler/trigger'' ''s3cret''
       io_500_body_unreadable initial_state)) = 2"
  by (simp add: triggerScheduler_def trigger_try_def trigger_catch_def emit_def Let_def
      io_500_body_unreadable_def response_500_body_unreadable_def initial_state_def ok_def)

text \<open>
  C2. \<open>triggerScheduler\<close> never throws: for every input and every outcome of the
  request and of reading the body the call completes normally and has counted the
  attempt; on a failure (transport error, status outside 2xx, body that is not JSON)
  it has counted a failure, set \<open>lastStatus\<close> to failed and printed an error. So
  the ticks of the timer all run, whatever their outcomes, and the process stays
  scheduled.
\<close>

theorem C2_triggerScheduler_never_throws:
  "fst (triggerScheduler endpointUrl secret io s) = Normal
   \<and> totalTriggers (snd (triggerScheduler endpointUrl secret io s)) = totalTriggers s + 1
   \<and> (is_failure io \<longrightarrow>
        failedTriggers s < failedTriggers (snd (triggerScheduler endpointUrl secret io s))
        \<and> lastStatus (snd (triggerScheduler endpointUrl secret io s)) = Some failed
        \<and> (\<exists>evs. trace (snd (triggerScheduler endpointUrl secret io s)) = trace s @ evs
                  \<and> (\<exists>e \<in> set evs. is_console_error e)))
   \<and> fst (timer_ticks endpointUrl secret ios s) = Scheduled
   \<and> totalTriggers (snd (timer_ticks endpointUrl secret ios s)) = totalTriggers s + length ios"
  using triggerScheduler_Normal [of endpointUrl secret io s]
    triggerScheduler_total [of endpointUrl secret io s]
    triggerScheduler_failure [where io = io and s = s and u = endpointUrl and k = secret]
    timer_ticks_Scheduled [of endpointUrl secret ios s]
    timer_ticks_total [of endpointUrl secret ios s]
  by blast

lemma is_failure_examples:
  "is_failure io_500_body_unreadable" "is_failure io_200_not_json" "is_failure io_connection_refused"
  by (simp_all add: is_failure_def io_500_body_unreadable_def response_500_body_unreadable_def
      io_200_not_json_def response_200_not_json_def io_connection_refused_def ok_def)

theorem C2_witness:
  "is_failure io_connection_refused
   \<and> fst (triggerScheduler ''http://localhost/api/scheduler/trigger'' ''s3cret''
        io_connection_refused initial_state) = Normal
   \<and> lastStatus (snd (triggerScheduler ''http://localhost/api/scheduler/trigger'' ''s3cret''
        io_connection_refused initial_state)) = Some failed
   \<and> fst (timer_ticks ''http://localhost/api/scheduler/trigger'' ''s3cret''
        [io_500_body_unreadable, io_200_not_json] initial_state) = Scheduled"
  using C2_triggerScheduler_never_throws [of "''http://localhost/api/scheduler/trigger''" "''s3cret''"
      io_connection_refused initial_state "[io_500_body_unreadable, io_200_not_json]"]
    is_failure_examples(3)
  by simp

section \<open>The configuration\<close>

lemma loadConfig_no_secret:
  assumes "env ''SCHEDULER_SECRET'' = None \<or> env ''SCHEDULER_SECRET'' = Some []"
  shows "loadConfig env =
           ([console_error [Lit ''ERROR: SCHEDULER_SECRET environment variable is required''],
             console_error [Lit ''Please set SCHEDULER_SECRET in your .env file or environment'']],
            Inl 1)"
  using assms by (auto simp: loadConfig_def or_default_def Let_def)

lemma loadConfig_secret:
  assumes "env ''SCHEDULER_SECRET'' = Some secret" and "secret \<noteq> []"
  shows "loadConfig env =
           ([], Inr \<lparr>interval = parseInt (or_default (env ''SCHEDULER_INTERVAL'') ''30000'') (Some 10),
                      schedulerSecret = secret,
                      appUrl = or_default (env ''APP_URL'') ''http://localhost'',
                      appPort = (case env ''APP_PORT'' of
                                   None \<Rightarrow> None
                                 | Some p \<Rightarrow> if p = [] then None else Some (parseInt p (Some 10)))\<rparr>)"
  using assms by (simp add: loadConfig_def or_default_def Let_def)

lemma main_no_secret:
  assumes "env ''SCHEDULER_SECRET'' = None \<or> env ''SCHEDULER_SECRET'' = Some []"
  shows "fst (main beyond env io0 ios) = Exited 1"
    and "http_calls (trace (snd (main beyond env io0 ios))) = []"
  using loadConfig_no_secret [of env] assms
  by (simp_all add: main_def emit_def initial_state_def http_calls_def is_http_def)

text \<open>
  C3. When \<open>SCHEDULER_SECRET\<close> is unset or the empty string, \<open>loadConfig\<close> reports
  the error and ends the process with exit code 1, and \<open>main\<close> has made no HTTP
  request, whatever the ticks would have read; otherwise \<open>loadConfig\<close> returns a
  configuration with that secret.
\<close>

theorem C3_secret_required:
  "((env ''SCHEDULER_SECRET'' = None \<or> env ''SCHEDULER_SECRET'' = Some []) \<longrightarrow>
      snd (loadConfig env) = Inl 1
      \<and> (\<exists>e \<in> set (fst (loadConfig env)). is_console_error e)
      \<and> fst (main beyond env io0 ios) = Exited 1
      \<and> http_calls (trace (snd (main beyond env io0 ios))) = [])
   \<and> (env ''SCHEDULER_SECRET'' = Some secret \<and> secret \<noteq> [] \<longrightarrow>
      (\<exists>cfg. snd (loadConfig env) = Inr cfg \<and> schedulerSecret cfg = secret))"
proof (intro conjI impI)
  assume a: "env ''SCHEDULER_SECRET'' = None \<or> env ''SCHEDULER_SECRET'' = Some []"
  from loadConfig_no_secret [of env] a show "snd (loadConfig env) = Inl 1" by simp
  from loadConfig_no_secret [of env] a show "\<exists>e \<in> set (fst (loadConfig env)). is_console_error e"
    by (simp add: is_console_error_def)
  from main_no_secret [of env beyond io0 ios] a show "fst (main beyond env io0 ios) = Exited 1"
    and "http_calls (trace (snd (main beyond env io0 ios))) = []" by simp_all
next
  assume "env ''SCHEDULER_SECRET'' = Some secret \<and> secret \<noteq> []"
  then have "env ''SCHEDULER_SECRET'' = Some secret" and "secret \<noteq> []" by simp_all
  with loadConfig_secret [of env secret]
  show "\<exists>cfg. snd (loadConfig env) = Inr cfg \<and> schedulerSecret cfg = secret" by simp
qed

theorem C3_witness:
  "snd (loadConfig Map.empty) = Inl 1
   \<and> fst (main some_rendering Map.empty io_200_json [io_200_json]) = Exited 1
   \<and> http_calls (trace (snd (main some_rendering Map.empty io_200_json [io_200_json]))) = []
   \<and> snd (loadConfig [''SCHEDULER_SECRET'' \<mapsto> []]) = Inl 1
   \<and> (\<exists>cfg. snd (loadConfig env_secret) = Inr cfg \<and> schedulerSecret cfg = ''s3cret'')"
  using C3_secret_required [where env = Map.empty and beyond = some_rendering and ?io0.0 = io_200_json
        and ios = "[io_200_json]" and secret = "''s3cret''"]
    C3_secret_required [where env = "[''SCHEDULER_SECRET'' \<mapsto> []]" and beyond = some_rendering
        and ?io0.0 = io_200_json and ios = "[io_200_json]" and secret = "''s3cret''"]
    C3_secret_required [where env = env_secret and beyond = some_rendering and ?io0.0 = io_200_json
        and ios = "[io_200_json]" and secret = "''s3cret''"]
  by (simp add: env_secret_def)

section \<open>Success and the body of the response\<close>

text \<open>
  C4, as claimed: every response with a 2xx status is counted as a success, also when
  its body is not valid JSON. On a response with status 200 whose body is not JSON
  the call counts a failure and no success, and sets \<open>lastStatus\<close> to failed.
\<close>

theorem C4_counterexample:
  "ok response_200_not_json
   \<and> successfulTriggers (snd (triggerScheduler ''http://localhost/api/scheduler/trigger'' ''s3cret''
        io_200_not_json initial_state)) = successfulTriggers initial_state
   \<and> failedTriggers (snd (triggerScheduler ''http://localhost/api/scheduler/trigger'' ''s3cret''
        io_200_not_json initial_state)) = failedTriggers initial_state + 1
   \<and> lastStatus (snd (triggerScheduler ''http://localhost/api/scheduler/trigger'' ''s3cret''
        io_200_not_json initial_state)) = Some failed"
  by (simp add: triggerScheduler_def trigger_try_def trigger_catch_def emit_def Let_def
      io_200_not_json_def response_200_not_json_def initial_state_def ok_def)

text \<open>
  C4, amended: a response with a 2xx status whose body parses as JSON is counted as
  a success whatever the parsed value is (one success more, \<open>lastStatus\<close> success,
  failures unchanged); a response with a 2xx status whose body cannot be read as
  JSON is counted as a failure (one failure more, \<open>lastStatus\<close> failed, successes
  unchanged).
\<close>

theorem C4_success_when_body_parses:
  assumes "fetched io = Fulfilled response" and "ok response"
  shows "(json_result response = Fulfilled v \<longrightarrow>
            successfulTriggers (snd (triggerScheduler endpointUrl secret io s)) = successfulTriggers s + 1
            \<and> lastStatus (snd (triggerScheduler endpointUrl secret io s)) = Some success
            \<and> failedTriggers (snd (triggerScheduler endpointUrl secret io s)) = failedTriggers s)
       \<and> (json_result response = Rejected e \<longrightarrow>
            successfulTriggers (snd (triggerScheduler endpointUrl secret io s)) = successfulTriggers s
            \<and> lastStatus (snd (triggerScheduler endpointUrl secret io s)) = Some failed
            \<and> failedTriggers (snd (triggerScheduler endpointUrl secret io s)) = failedTriggers s + 1)"
  using assms
  by (simp add: triggerScheduler_def trigger_try_def trigger_catch_def emit_def Let_def)

theorem C4_witness:
  "fetched io_200_json = Fulfilled response_200_json \<and> ok response_200_json
   \<and> json_result response_200_json = Fulfilled (JArr [JNum 1, JNum 2])
   \<and> successfulTriggers (snd (triggerScheduler ''http://localhost/api/scheduler/trigger'' ''s3cret''
        io_200_json initial_state)) = successfulTriggers initial_state + 1
   \<and> lastStatus (snd (triggerScheduler ''http://localhost/api/scheduler/trigger'' ''s3cret''
        io_200_json initial_state)) = Some success
   \<and> fetched io_200_not_json = Fulfilled response_200_not_json \<and> ok response_200_not_json
   \<and> failedTriggers (snd (triggerScheduler ''http://localhost/api/scheduler/trigger'' ''s3cret''
        io_200_not_json initial_state)) = failedTriggers initial_state + 1"
proof -
  have a: "fetched io_200_json = Fulfilled response_200_json" "ok response_200_json"
    "json_result response_200_json = Fulfilled (JArr [JNum 1, JNum 2])"
    by (simp_all add: io_200_json_def response_200_json_def ok_def)
  have b: "fetched io_200_not_json = Fulfilled response_200_not_json" "ok response_200_not_json"
    "json_result response_200_not_json = Rejected (ErrorObject ''Unexpected token < in JSON at position 0'')"
    by (simp_all add: io_200_not_json_def response_200_not_json_def ok_def)
  from C4_success_when_body_parses [OF a(1) a(2), of "JArr [JNum 1, JNum 2]"
      "''http://localhost/api/scheduler/trigger''" "''s3cret''" initial_state] a
    C4_success_when_body_parses [OF b(1) b(2), of _ "''http://localhost/api/scheduler/trigger''"
      "''s3cret''" initial_state "ErrorObject ''Unexpected token < in JSON at position 0''"] b
  show ?thesis by simp
qed


section \<open>The endpoint URL and the defaults\<close>


lemma parseInt_examples:
  "parseInt ''0'' (Some 10) = Num 0"
  "parseInt ''3000'' (Some 10) = Num 3000"
  "parseInt ''-5'' (Some 10) = Num (- 5)"
  "parseInt ''30000'' (Some 10) = Num 30000"
  "parseInt ''60000'' None = Num 60000"
  by (simp_all add: parseInt_def is_white_space_def is_radix_digit_def digit_of_def digits_value_def)




text \<open>
  C9, as claimed: for every environment the interval of the loaded configuration is
  a positive integer, and the base URL defaults to \<open>http://localhost\<close>. With
  \<open>SCHEDULER_INTERVAL=-5\<close> the interval of the loaded configuration is \<open>-5\<close>; and
  the base URL of the multi-endpoint scheduler defaults to \<open>http://localhost:80\<close>.
\<close>

theorem C9_counterexample:
  "snd (loadConfig env_negative_interval) =
     Inr \<lparr>interval = Num (- 5), schedulerSecret = ''s3cret'', appUrl = ''http://localhost'',
          appPort = None\<rparr>
   \<and> \<not> is_positive_integer (Num (- 5))
   \<and> symposiumUrl (loadConfig_multi NodeProcess Map.empty) = ''http://localhost:80''"
  by (simp add: loadConfig_def or_default_def env_negative_interval_def Let_def parseInt_examples
      loadConfig_multi_def getEnv_def)

text \<open>
  C9, amended: the interval of the loaded configuration is what \<open>parseInt\<close> makes
  of the text of the variable (it need not be a positive integer: it is NaN, zero
  or negative when the text says so); it is 30000 in the single-endpoint scheduler
  and 60000 in the multi-endpoint scheduler when the variable is absent. The base
  URL defaults to \<open>http://localhost\<close> in the single-endpoint scheduler and to
  \<open>http://localhost:80\<close> in the multi-endpoint scheduler when its variable is
  absent.
\<close>

theorem C9_interval_and_defaults:
  "(snd (loadConfig env) = Inr cfg \<longrightarrow>
      interval cfg = parseInt (or_default (env ''SCHEDULER_INTERVAL'') ''30000'') (Some 10)
      \<and> (env ''SCHEDULER_INTERVAL'' = None \<longrightarrow>
           interval cfg = Num 30000 \<and> is_positive_integer (interval cfg))
      \<and> (env ''APP_URL'' = None \<longrightarrow> appUrl cfg = ''http://localhost''))
   \<and> checkInterval (loadConfig_multi rt env) =
       parseInt (or_default (getEnv rt env ''CHECK_INTERVAL_MS'') ''60000'') None
   \<and> (getEnv rt env ''CHECK_INTERVAL_MS'' = None \<longrightarrow>
        checkInterval (loadConfig_multi rt env) = Num 60000
        \<and> is_positive_integer (checkInterval (loadConfig_multi rt env)))
   \<and> (getEnv rt env ''SYMPOSIUM_URL'' = None \<longrightarrow>
        symposiumUrl (loadConfig_multi rt env) = ''http://localhost:80'')"
  by (auto simp: loadConfig_def loadConfig_multi_def or_default_def Let_def parseInt_examples
      split: if_splits)

theorem C9_witness:
  "snd (loadConfig env_secret) =
     Inr \<lparr>interval = Num 30000, schedulerSecret = ''s3cret'', appUrl = ''http://localhost'',
          appPort = None\<rparr>
   \<and> interval \<lparr>interval = Num 30000, schedulerSecret = ''s3cret'', appUrl = ''http://localhost'',
          appPort = None\<rparr> = Num 30000
   \<and> checkInterval (loadConfig_multi DenoRuntime env_secret) = Num 60000
   \<and> symposiumUrl (loadConfig_multi DenoRuntime env_secret) = ''http://localhost:80''"
proof -
  have a: "snd (loadConfig env_secret) =
     Inr \<lparr>interval = Num 30000, schedulerSecret = ''s3cret'', appUrl = ''http://localhost'',
          appPort = None\<rparr>"
    by (simp add: loadConfig_def or_default_def env_secret_def Let_def parseInt_examples)
  have b: "env_secret ''SCHEDULER_INTERVAL'' = None" "env_secret ''APP_URL'' = None"
    "getEnv DenoRuntime env_secret ''CHECK_INTERVAL_MS'' = None"
    "getEnv DenoRuntime env_secret ''SYMPOSIUM_URL'' = None"
    by (simp_all add: env_secret_def getEnv_def)
  from C9_interval_and_defaults [of env_secret
      "\<lparr>interval = Num 30000, schedulerSecret = ''s3cret'', appUrl = ''http://localhost'',
        appPort = None\<rparr>" DenoRuntime] a b
  show ?thesis by (simp add: or_default_def parseInt_examples)
qed

section \<open>The multi-endpoint scheduler: three isolated requests per tick\<close>

lemma is_http_request: "is_http (request ep cfg)"
  by (simp add: request_def is_http_def Let_def)

lemma http_calls_simps [simp]:
  "http_calls [] = []"
  "http_calls (console_log ps # evs) = http_calls evs"
  "http_calls (console_error ps # evs) = http_calls evs"
  "http_calls (console_warn ps # evs) = http_calls evs"
  "http_calls (http_POST url headers body # evs) = http_POST url headers body # http_calls evs"
  "http_calls (xs @ ys) = http_calls xs @ http_calls ys"
  by (simp_all add: http_calls_def is_http_def)

lemma report_result_no_http: "report_result ep r = Inr evs \<Longrightarrow> http_calls evs = []"
  by (auto simp: report_result_def split: json.splits if_splits)

lemma for_each_result_no_http [simp]: "http_calls (fst (for_each_result ep rs)) = []"
proof (induction rs)
  case Nil
  show ?case by simp
next
  case (Cons r rs)
  show ?case
  proof (cases "report_result ep r")
    case (Inl e)
    then show ?thesis by simp
  next
    case (Inr evs)
    with Cons report_result_no_http [OF Inr] show ?thesis
      by (simp add: case_prod_beta)
  qed
qed

lemma report_data_no_http [simp]: "http_calls (fst (report_data gtz ep data)) = []"
  by (cases data)
    (simp_all add: report_data_def Let_def case_prod_beta split: option.splits json.splits)

lemma after_fetch_no_http [simp]: "http_calls (fst (after_fetch gtz ep r)) = []"
  by (simp add: after_fetch_def split: settled.splits)

lemma http_calls_settle [simp]: "http_calls (fst (settle gtz ep r)) = []"
  using after_fetch_no_http [of gtz ep r]
  by (cases "after_fetch gtz ep r")
    (auto simp: settle_def catch_block_def split: completion.splits)

lemma settle_Normal [simp]: "snd (settle gtz ep r) = Normal"
  by (cases "after_fetch gtz ep r") (auto simp: settle_def catch_block_def split: completion.splits)

lemma trigger_endpoint_eq:
  "trigger_endpoint gtz ep cfg r = (request ep cfg # fst (settle gtz ep r), Normal)"
  using settle_Normal [of gtz ep r]
  by (cases "settle gtz ep r") (simp add: trigger_endpoint_def)

lemma http_calls_request [simp]: "http_calls (request ep cfg # evs) = request ep cfg # http_calls evs"
  using is_http_request [of ep cfg] by (simp add: http_calls_def)

lemma triggerCheck_eq:
  "triggerCheck gtz cfg io =
     ([console_log [Lit [CHR 0x0A], Lit ''['', IsoTimeV (checked_at io),
                    Lit ''] Checking for scheduled tasks...'']]
      @ (request Queries cfg # fst (settle gtz Queries (queries_fetched io)))
      @ (request Cleanups cfg # fst (settle gtz Cleanups (cleanups_fetched io)))
      @ (request Outputs cfg # fst (settle gtz Outputs (outputs_fetched io))),
      Normal)"
  by (simp add: triggerCheck_def triggerQueries_def triggerCleanups_def triggerOutputs_def
      trigger_endpoint_eq)

section \<open>The scheduler object: running flag and timer\<close>

lemma triggerCheck_call_fields [simp]:
  "scheduler (triggerCheck_call now l) = scheduler l"
  "timers (triggerCheck_call now l) = timers l"
  "next_handle (triggerCheck_call now l) = next_handle l"
  "in_flight (triggerCheck_call now l) = in_flight l @ [Queries]"
  "unhandled (triggerCheck_call now l) = unhandled l"
  by (simp_all add: triggerCheck_call_def append_events_def)

lemma fetch_settles_fields [simp]:
  "scheduler (fetch_settles gtz k r l) = scheduler l"
  "timers (fetch_settles gtz k r l) = timers l"
  "next_handle (fetch_settles gtz k r l) = next_handle l"
  by (simp_all add: fetch_settles_def append_events_def Let_def
      split: prod.splits completion.splits option.splits)

lemma loop_invariant_boot: "loop_invariant (boot cfg)"
  by (simp add: loop_invariant_def boot_def new_LocalScheduler_def)

lemma loop_invariant_start: "loop_invariant l \<Longrightarrow> loop_invariant (start now l)"
  by (auto simp: loop_invariant_def start_def append_events_def Let_def split: option.splits)

lemma loop_invariant_stop: "loop_invariant l \<Longrightarrow> loop_invariant (stop l)"
  by (auto simp: loop_invariant_def stop_def append_events_def Let_def split: option.splits)

lemma loop_invariant_step: "loop_invariant l \<Longrightarrow> loop_invariant (step gtz l a)"
proof (cases a)
  case (CallStart now)
  assume "loop_invariant l"
  with CallStart show ?thesis by (simp add: loop_invariant_start)
next
  case CallStop
  assume "loop_invariant l"
  with CallStop show ?thesis by (simp add: loop_invariant_stop)
next
  case (TimerFires h now)
  assume "loop_invariant l"
  with TimerFires show ?thesis by (simp add: timer_fires_def loop_invariant_def)
next
  case (FetchSettles k r)
  assume "loop_invariant l"
  with FetchSettles show ?thesis by (simp add: loop_invariant_def)
qed

lemma loop_invariant_run: "loop_invariant l \<Longrightarrow> loop_invariant (run gtz acts l)"
  unfolding run_def
  by (induction acts arbitrary: l) (simp_all add: loop_invariant_step)

text \<open>No tick ever throws: the list of unhandled errors stays empty.\<close>

lemma unhandled_step: "unhandled l = [] \<Longrightarrow> unhandled (step gtz l a) = []"
proof (cases a)
  case (CallStart now)
  assume "unhandled l = []"
  with CallStart show ?thesis by (simp add: start_def append_events_def Let_def)
next
  case CallStop
  assume "unhandled l = []"
  with CallStop show ?thesis by (simp add: stop_def append_events_def Let_def split: option.splits)
next
  case (TimerFires h now)
  assume "unhandled l = []"
  with TimerFires show ?thesis by (simp add: timer_fires_def)
next
  case (FetchSettles k r)
  assume u: "unhandled l = []"
  obtain evs where s: "settle gtz (in_flight l ! k) r = (evs, Normal)"
    using settle_Normal [of gtz "in_flight l ! k" r] by (cases "settle gtz (in_flight l ! k) r") simp
  with u FetchSettles show ?thesis
    by (simp add: fetch_settles_def append_events_def split: option.splits)
qed

lemma unhandled_run: "unhandled (run gtz acts (boot cfg)) = []"
proof -
  have "unhandled l = [] \<Longrightarrow> unhandled (run gtz acts l) = []" for l
    unfolding run_def by (induction acts arbitrary: l) (simp_all add: unhandled_step)
  then show ?thesis by (simp add: boot_def)
qed

text \<open>
  C10. After construction and after every completed call of \<open>start\<close> or \<open>stop\<close>
  (and at every other point between two steps of the event loop), the running flag
  is true if and only if the timer handle is defined, and \<open>isRunning\<close> returns the
  running flag.
\<close>

theorem C10_running_iff_timer:
  "(running (scheduler (run gtz acts (boot cfg))) \<longleftrightarrow>
      intervalId (scheduler (run gtz acts (boot cfg))) \<noteq> None)
   \<and> isRunning (scheduler (run gtz acts (boot cfg))) = running (scheduler (run gtz acts (boot cfg)))
   \<and> \<not> running (new_LocalScheduler cfg) \<and> intervalId (new_LocalScheduler cfg) = None"
  using loop_invariant_run [OF loop_invariant_boot, of gtz acts cfg]
  by (simp add: loop_invariant_def isRunning_def new_LocalScheduler_def)


text \<open>
  A tick in the event loop, its three requests settled one after the other, prints
  and requests what \<open>triggerCheck\<close> run to its end does.
\<close>

lemma fetch_settles_first:
  assumes "in_flight l = [ep]"
  shows "fetch_settles gtz 0 r l =
           (case next_endpoint ep of
              Some ep' \<Rightarrow>
                (append_events (fst (settle gtz ep r) @ [request ep' (config (scheduler l))]) l)
                  \<lparr>in_flight := [ep']\<rparr>
            | None \<Rightarrow> (append_events (fst (settle gtz ep r)) l)\<lparr>in_flight := []\<rparr>)"
proof -
  obtain evs where s: "settle gtz ep r = (evs, Normal)"
    using settle_Normal [of gtz ep r] by (cases "settle gtz ep r") simp
  with assms show ?thesis
    by (simp add: fetch_settles_def split: option.splits)
qed

lemma tick_in_loop:
  assumes "in_flight l = []"
  shows "history (run gtz [FetchSettles 0 r1, FetchSettles 0 r2, FetchSettles 0 r3]
                    (triggerCheck_call now l))
         = history l @ fst (triggerCheck gtz (config (scheduler l))
                              \<lparr>checked_at = now, queries_fetched = r1,
                                 cleanups_fetched = r2, outputs_fetched = r3\<rparr>)"
    and "in_flight (run gtz [FetchSettles 0 r1, FetchSettles 0 r2, FetchSettles 0 r3]
                    (triggerCheck_call now l)) = []"
proof -
  let ?l1 = "triggerCheck_call now l"
  let ?l2 = "fetch_settles gtz 0 r1 ?l1"
  let ?l3 = "fetch_settles gtz 0 r2 ?l2"
  have f1: "in_flight ?l1 = [Queries]" using assms by simp
  have e2: "?l2 = (append_events (fst (settle gtz Queries r1) @ [request Cleanups (config (scheduler ?l1))]) ?l1)
                    \<lparr>in_flight := [Cleanups]\<rparr>"
    using fetch_settles_first [OF f1, of gtz r1] by simp
  then have f2: "in_flight ?l2 = [Cleanups]" by simp
  have e3: "?l3 = (append_events (fst (settle gtz Cleanups r2) @ [request Outputs (config (scheduler ?l2))]) ?l2)
                    \<lparr>in_flight := [Outputs]\<rparr>"
    using fetch_settles_first [OF f2, of gtz r2] by simp
  then have f3: "in_flight ?l3 = [Outputs]" by simp
  have e4: "fetch_settles gtz 0 r3 ?l3 = (append_events (fst (settle gtz Outputs r3)) ?l3)\<lparr>in_flight := []\<rparr>"
    using fetch_settles_first [OF f3, of gtz r3] by simp
  have r: "run gtz [FetchSettles 0 r1, FetchSettles 0 r2, FetchSettles 0 r3] ?l1
             = fetch_settles gtz 0 r3 ?l3"
    by (simp add: run_def)
  show "history (run gtz [FetchSettles 0 r1, FetchSettles 0 r2, FetchSettles 0 r3] ?l1)
         = history l @ fst (triggerCheck gtz (config (scheduler l))
                              \<lparr>checked_at = now, queries_fetched = r1,
                                 cleanups_fetched = r2, outputs_fetched = r3\<rparr>)"
    unfolding r e4
    by (subst e3, subst e2) (simp add: append_events_def triggerCheck_call_def triggerCheck_eq)
  show "in_flight (run gtz [FetchSettles 0 r1, FetchSettles 0 r2, FetchSettles 0 r3] ?l1) = []"
    unfolding r e4 by simp
qed


subsection \<open>The requests of a tick, one after the other\<close>

text \<open>Handling a settled request prints at least one line, whatever the outcome.\<close>

lemma report_data_nonempty: "fst (report_data gtz ep data) = [] \<Longrightarrow> snd (report_data gtz ep data) \<noteq> Normal"
  by (cases data)
    (auto simp: report_data_def Let_def case_prod_beta split: option.splits json.splits if_splits)

lemma after_fetch_nonempty: "fst (after_fetch gtz ep r) = [] \<Longrightarrow> snd (after_fetch gtz ep r) \<noteq> Normal"
  using report_data_nonempty [of gtz ep]
  by (auto simp: after_fetch_def split: settled.splits if_splits)

lemma settle_nonempty: "fst (settle gtz ep r) \<noteq> []"
proof (cases "after_fetch gtz ep r")
  case (Pair evs c)
  show ?thesis
  proof (cases c)
    case Normal
    with Pair after_fetch_nonempty [of gtz ep r] show ?thesis
      by (auto simp: settle_def catch_block_def)
  next
    case (Throw e)
    with Pair show ?thesis by (simp add: settle_def catch_block_def)
  qed
qed

lemma fetch_settles_eq:
  assumes "k < length (in_flight l)"
  shows "history (fetch_settles gtz k r l) =
           history l @ fst (settle gtz (in_flight l ! k) r) @
           (case next_endpoint (in_flight l ! k) of
              Some ep' \<Rightarrow> [request ep' (config (scheduler l))]
            | None \<Rightarrow> [])"
    and "in_flight (fetch_settles gtz k r l) =
           (case next_endpoint (in_flight l ! k) of
              Some ep' \<Rightarrow> (in_flight l)[k := ep']
            | None \<Rightarrow> take k (in_flight l) @ drop (Suc k) (in_flight l))"
proof -
  obtain evs where s: "settle gtz (in_flight l ! k) r = (evs, Normal)"
    using settle_Normal [of gtz "in_flight l ! k" r] by (cases "settle gtz (in_flight l ! k) r") simp
  with assms show "history (fetch_settles gtz k r l) =
           history l @ fst (settle gtz (in_flight l ! k) r) @
           (case next_endpoint (in_flight l ! k) of
              Some ep' \<Rightarrow> [request ep' (config (scheduler l))]
            | None \<Rightarrow> [])"
    by (simp add: fetch_settles_def append_events_def split: option.splits)
  from assms s show "in_flight (fetch_settles gtz k r l) =
           (case next_endpoint (in_flight l ! k) of
              Some ep' \<Rightarrow> (in_flight l)[k := ep']
            | None \<Rightarrow> take k (in_flight l) @ drop (Suc k) (in_flight l))"
    by (simp add: fetch_settles_def append_events_def split: option.splits)
qed

lemma triggerCheck_call_history:
  "history (triggerCheck_call now l) = history l @ [check_line now, request Queries (config (scheduler l))]"
  by (simp add: triggerCheck_call_def append_events_def check_line_def)

text \<open>
  A step in which no \<open>fetch\<close> settles leaves the suspended ticks where they are:
  the only request it can make is the first request of a tick it begins.
\<close>

lemma unsettled_step:
  assumes "\<not> is_settle a"
  shows "\<exists>evs m. history (step gtz l a) = history l @ evs
           \<and> http_calls evs = replicate m (request Queries (config (scheduler l)))
           \<and> in_flight (step gtz l a) = in_flight l @ replicate m Queries
           \<and> config (scheduler (step gtz l a)) = config (scheduler l)"
proof (cases a)
  case (CallStart now)
  show ?thesis
  proof (cases "running (scheduler l)")
    case True
    with CallStart show ?thesis
      by (intro exI [of _ "[console_log [Lit ''[Scheduler] Already running'']]"] exI [of _ 0])
        (simp add: start_def append_events_def)
  next
    case False
    with CallStart show ?thesis
      by (intro exI [of _ "[console_log [Lit ''[Scheduler] Starting with '',
                                      NumV (checkInterval (config (scheduler l))), Lit ''ms interval''],
                         console_log [Lit ''[Scheduler] Target URL: '',
                                      Lit (symposiumUrl (config (scheduler l)))],
                         check_line now, request Queries (config (scheduler l))]"] exI [of _ 1])
        (simp add: start_def append_events_def triggerCheck_call_def check_line_def Let_def)
  qed
next
  case CallStop
  then show ?thesis
    by (cases "running (scheduler l)")
      (auto simp: stop_def append_events_def Let_def split: option.splits
        intro!: exI [of _ 0])
next
  case (TimerFires h now)
  show ?thesis
  proof (cases "h \<in> set (timers l)")
    case True
    with TimerFires show ?thesis
      by (intro exI [of _ "[check_line now, request Queries (config (scheduler l))]"] exI [of _ 1])
        (simp add: timer_fires_def triggerCheck_call_def append_events_def check_line_def)
  next
    case False
    with TimerFires show ?thesis
      by (intro exI [of _ "[]"] exI [of _ 0]) (simp add: timer_fires_def)
  qed
next
  case (FetchSettles k r)
  with assms show ?thesis by (simp add: is_settle_def)
qed

lemma unsettled_run:
  assumes "list_all (\<lambda>a. \<not> is_settle a) acts"
  shows "\<exists>evs m. history (run gtz acts l) = history l @ evs
           \<and> http_calls evs = replicate m (request Queries (config (scheduler l)))
           \<and> in_flight (run gtz acts l) = in_flight l @ replicate m Queries
           \<and> config (scheduler (run gtz acts l)) = config (scheduler l)"
  using assms
proof (induction acts arbitrary: l)
  case Nil
  show ?case by (intro exI [of _ "[]"] exI [of _ 0]) (simp add: run_def)
next
  case (Cons a acts)
  then have a: "\<not> is_settle a" and acts: "list_all (\<lambda>a. \<not> is_settle a) acts" by simp_all
  from unsettled_step [OF a, of gtz l]
  obtain evs1 m1 where s1: "history (step gtz l a) = history l @ evs1"
    "http_calls evs1 = replicate m1 (request Queries (config (scheduler l)))"
    "in_flight (step gtz l a) = in_flight l @ replicate m1 Queries"
    "config (scheduler (step gtz l a)) = config (scheduler l)"
    by blast
  from Cons.IH [OF acts, of "step gtz l a"]
  obtain evs2 m2 where s2: "history (run gtz acts (step gtz l a)) = history (step gtz l a) @ evs2"
    "http_calls evs2 = replicate m2 (request Queries (config (scheduler (step gtz l a))))"
    "in_flight (run gtz acts (step gtz l a)) = in_flight (step gtz l a) @ replicate m2 Queries"
    "config (scheduler (run gtz acts (step gtz l a))) = config (scheduler (step gtz l a))"
    by blast
  have r: "run gtz (a # acts) l = run gtz acts (step gtz l a)" by (simp add: run_def)
  from s1 s2 show ?case
    unfolding r
    by (intro exI [of _ "evs1 @ evs2"] exI [of _ "m1 + m2"]) (simp add: replicate_add)
qed


text \<open>
  C7, as claimed: every tick performs exactly three HTTP POSTs. No timeout is set
  on a request: a tick whose request to the queries endpoint has not settled has
  made that one request and no other. After \<open>start\<close> and one firing of the timer,
  with no request settled, two ticks are suspended at the queries endpoint and the
  only requests made are their two POSTs to it.
\<close>

theorem C7_counterexample:
  "in_flight (run never_gt0 [CallStart 0, TimerFires 0 60000] (boot config_multi_default))
     = [Queries, Queries]
   \<and> http_calls (history (run never_gt0 [CallStart 0, TimerFires 0 60000] (boot config_multi_default)))
     = [http_POST ''http://localhost:80/api/scheduler/trigger'' [] None,
        http_POST ''http://localhost:80/api/scheduler/trigger'' [] None]"
  by (simp add: run_def boot_def new_LocalScheduler_def config_multi_default_def start_def
      timer_fires_def triggerCheck_call_def append_events_def request_def Let_def)

text \<open>
  C7, amended: a tick makes its HTTP POSTs one after the other, in the order
  queries, cleanups, outputs: it posts to the queries endpoint when it begins, and
  to the next endpoint only when the request before has settled and its outcome
  has been handled (which prints at least one line and makes no request). Each of
  the three trigger functions completes normally on every outcome (transport
  error, status outside 2xx, body that is not JSON or not of the expected shape),
  so a failure of one call does not keep the tick from the calls after it, and a
  tick whose three requests settle has made exactly three POSTs. A tick whose
  request does not settle stays suspended there: steps in which no request settles
  make no request but the first one of a tick they begin.
\<close>

theorem C7_sequential_isolated_requests:
  "snd (triggerQueries gtz cfg r1) = Normal
   \<and> snd (triggerCleanups gtz cfg r2) = Normal
   \<and> snd (triggerOutputs gtz cfg r3) = Normal
   \<and> triggerCheck gtz cfg io =
       (check_line (checked_at io)
        # request Queries cfg # fst (settle gtz Queries (queries_fetched io))
        @ request Cleanups cfg # fst (settle gtz Cleanups (cleanups_fetched io))
        @ request Outputs cfg # fst (settle gtz Outputs (outputs_fetched io)),
        Normal)
   \<and> http_calls (fst (settle gtz ep r)) = [] \<and> fst (settle gtz ep r) \<noteq> []
   \<and> http_calls (fst (triggerCheck gtz cfg io)) =
       [request Queries cfg, request Cleanups cfg, request Outputs cfg]
   \<and> (\<exists>headers.
        request Queries cfg = http_POST (symposiumUrl cfg @ ''/api/scheduler/trigger'') headers None
        \<and> request Cleanups cfg =
            http_POST (symposiumUrl cfg @ ''/api/scheduler/trigger-cleanups'') headers None
        \<and> request Outputs cfg =
            http_POST (symposiumUrl cfg @ ''/api/scheduler/trigger-outputs'') headers None)
   \<and> history (triggerCheck_call now l) =
       history l @ [check_line now, request Queries (config (scheduler l))]
   \<and> in_flight (triggerCheck_call now l) = in_flight l @ [Queries]
   \<and> (k < length (in_flight l) \<longrightarrow>
        history (fetch_settles gtz k r l) =
          history l @ fst (settle gtz (in_flight l ! k) r) @
          (case next_endpoint (in_flight l ! k) of
             Some ep' \<Rightarrow> [request ep' (config (scheduler l))]
           | None \<Rightarrow> [])
        \<and> in_flight (fetch_settles gtz k r l) =
          (case next_endpoint (in_flight l ! k) of
             Some ep' \<Rightarrow> (in_flight l)[k := ep']
           | None \<Rightarrow> take k (in_flight l) @ drop (Suc k) (in_flight l)))
   \<and> (list_all (\<lambda>a. \<not> is_settle a) acts \<longrightarrow>
        (\<exists>evs m. history (run gtz acts l) = history l @ evs
           \<and> http_calls evs = replicate m (request Queries (config (scheduler l)))
           \<and> in_flight (run gtz acts l) = in_flight l @ replicate m Queries))"
proof (intro conjI impI)
  show "snd (triggerQueries gtz cfg r1) = Normal" "snd (triggerCleanups gtz cfg r2) = Normal"
    "snd (triggerOutputs gtz cfg r3) = Normal"
    by (simp_all add: triggerQueries_def triggerCleanups_def triggerOutputs_def trigger_endpoint_eq)
  show "triggerCheck gtz cfg io =
       (check_line (checked_at io)
        # request Queries cfg # fst (settle gtz Queries (queries_fetched io))
        @ request Cleanups cfg # fst (settle gtz Cleanups (cleanups_fetched io))
        @ request Outputs cfg # fst (settle gtz Outputs (outputs_fetched io)),
        Normal)"
    by (simp add: triggerCheck_eq check_line_def)
  show "http_calls (fst (settle gtz ep r)) = []" by (rule http_calls_settle)
  show "fst (settle gtz ep r) \<noteq> []" by (rule settle_nonempty)
  show "http_calls (fst (triggerCheck gtz cfg io)) =
       [request Queries cfg, request Cleanups cfg, request Outputs cfg]"
    by (simp add: triggerCheck_eq)
  show "\<exists>headers.
        request Queries cfg = http_POST (symposiumUrl cfg @ ''/api/scheduler/trigger'') headers None
        \<and> request Cleanups cfg =
            http_POST (symposiumUrl cfg @ ''/api/scheduler/trigger-cleanups'') headers None
        \<and> request Outputs cfg =
            http_POST (symposiumUrl cfg @ ''/api/scheduler/trigger-outputs'') headers None"
    by (simp add: request_def Let_def)
  show "history (triggerCheck_call now l) =
       history l @ [check_line now, request Queries (config (scheduler l))]"
    by (rule triggerCheck_call_history)
  show "in_flight (triggerCheck_call now l) = in_flight l @ [Queries]" by simp
next
  assume k: "k < length (in_flight l)"
  from fetch_settles_eq [OF k, of gtz r]
  show "history (fetch_settles gtz k r l) =
          history l @ fst (settle gtz (in_flight l ! k) r) @
          (case next_endpoint (in_flight l ! k) of
             Some ep' \<Rightarrow> [request ep' (config (scheduler l))]
           | None \<Rightarrow> [])"
    and "in_flight (fetch_settles gtz k r l) =
          (case next_endpoint (in_flight l ! k) of
             Some ep' \<Rightarrow> (in_flight l)[k := ep']
           | None \<Rightarrow> take k (in_flight l) @ drop (Suc k) (in_flight l))"
    by simp_all
next
  assume "list_all (\<lambda>a. \<not> is_settle a) acts"
  from unsettled_run [OF this, of gtz l]
  show "\<exists>evs m. history (run gtz acts l) = history l @ evs
           \<and> http_calls evs = replicate m (request Queries (config (scheduler l)))
           \<and> in_flight (run gtz acts l) = in_flight l @ replicate m Queries"
    by blast
qed

lemma suspended_example:
  "(0::nat) < length (in_flight (run never_gt0 [CallStart 0] (boot config_multi_default)))"
  "in_flight (run never_gt0 [CallStart 0] (boot config_multi_default)) ! 0 = Queries"
  "config (scheduler (run never_gt0 [CallStart 0] (boot config_multi_default))) = config_multi_default"
  "list_all (\<lambda>a. \<not> is_settle a) [TimerFires 0 60000, CallStop]"
  by (simp_all add: run_def boot_def new_LocalScheduler_def start_def append_events_def
      triggerCheck_call_def is_settle_def Let_def)

theorem C7_witness:
  "(0::nat) < length (in_flight (run never_gt0 [CallStart 0] (boot config_multi_default)))
   \<and> history (fetch_settles never_gt0 0 connection_refused
                 (run never_gt0 [CallStart 0] (boot config_multi_default)))
       = history (run never_gt0 [CallStart 0] (boot config_multi_default))
         @ fst (settle never_gt0 Queries connection_refused)
         @ [request Cleanups config_multi_default]
   \<and> in_flight (fetch_settles never_gt0 0 connection_refused
                   (run never_gt0 [CallStart 0] (boot config_multi_default))) = [Cleanups]
   \<and> list_all (\<lambda>a. \<not> is_settle a) [TimerFires 0 60000, CallStop]
   \<and> (\<exists>evs m. history (run never_gt0 [TimerFires 0 60000, CallStop]
                          (run never_gt0 [CallStart 0] (boot config_multi_default)))
                 = history (run never_gt0 [CallStart 0] (boot config_multi_default)) @ evs
            \<and> http_calls evs = replicate m (request Queries config_multi_default))"
proof -
  let ?l = "run never_gt0 [CallStart 0] (boot config_multi_default)"
  have f: "in_flight ?l = [Queries]"
    by (simp add: run_def boot_def new_LocalScheduler_def start_def append_events_def
        triggerCheck_call_def Let_def)
  from C7_sequential_isolated_requests [where l = ?l and k = 0 and r = connection_refused
      and gtz = never_gt0 and acts = "[TimerFires 0 60000, CallStop]"]
    suspended_example
  have "history (fetch_settles never_gt0 0 connection_refused ?l) =
          history ?l @ fst (settle never_gt0 (in_flight ?l ! 0) connection_refused) @
          (case next_endpoint (in_flight ?l ! 0) of
             Some ep' \<Rightarrow> [request ep' (config (scheduler ?l))]
           | None \<Rightarrow> [])"
    and "in_flight (fetch_settles never_gt0 0 connection_refused ?l) =
          (case next_endpoint (in_flight ?l ! 0) of
             Some ep' \<Rightarrow> (in_flight ?l)[0 := ep']
           | None \<Rightarrow> take 0 (in_flight ?l) @ drop (Suc 0) (in_flight ?l))"
    and "\<exists>evs m. history (run never_gt0 [TimerFires 0 60000, CallStop] ?l) = history ?l @ evs
           \<and> http_calls evs = replicate m (request Queries (config (scheduler ?l)))
           \<and> in_flight (run never_gt0 [TimerFires 0 60000, CallStop] ?l)
               = in_flight ?l @ replicate m Queries"
    by blast+
  with suspended_example f show ?thesis by auto
qed

subsection \<open>Stopping the scheduler\<close>

lemma sum_list_map_update:
  "k < length xs \<Longrightarrow> sum_list (map f (xs[k := y])) + f (xs ! k) = sum_list (map f xs) + (f y :: nat)"
proof (induction xs arbitrary: k)
  case Nil
  then show ?case by simp
next
  case (Cons x xs)
  show ?case
  proof (cases k)
    case 0
    then show ?thesis by simp
  next
    case (Suc j)
    with Cons.prems have "j < length xs" by simp
    from Cons.IH [OF this] Suc show ?thesis by simp
  qed
qed

lemma sum_list_map_remove:
  "k < length xs \<Longrightarrow>
     sum_list (map f (take k xs @ drop (Suc k) xs)) + f (xs ! k) = sum_list (map (f :: 'a \<Rightarrow> nat) xs)"
proof -
  assume "k < length xs"
  then have "xs = take k xs @ xs ! k # drop (Suc k) xs" by (rule id_take_nth_drop)
  then have "sum_list (map f xs) = sum_list (map f (take k xs @ xs ! k # drop (Suc k) xs))" by simp
  then show ?thesis by simp
qed

lemma remaining_next: "next_endpoint ep = Some ep' \<Longrightarrow> remaining ep = Suc (remaining ep')"
  by (cases ep) auto

text \<open>
  When a \<open>fetch\<close> settles, the suspended tick makes at most one request, and it has
  one request less to make.
\<close>

lemma fetch_settles_requests:
  "\<exists>evs. history (fetch_settles gtz k r l) = history l @ evs
         \<and> length (http_calls evs) + pending_requests (fetch_settles gtz k r l) \<le> pending_requests l"
proof (cases "k < length (in_flight l)")
  case False
  then show ?thesis by (simp add: fetch_settles_def)
next
  case True
  let ?ep = "in_flight l ! k"
  obtain evs where s: "settle gtz ?ep r = (evs, Normal)"
    using settle_Normal [of gtz ?ep r] by (cases "settle gtz ?ep r") simp
  have h: "http_calls evs = []"
    using http_calls_settle [of gtz ?ep r] s by simp
  show ?thesis
  proof (cases "next_endpoint ?ep")
    case None
    with True s h sum_list_map_remove [OF True, of remaining] show ?thesis
      by (simp add: fetch_settles_def append_events_def pending_requests_def)
  next
    case (Some ep')
    with True s h sum_list_map_update [OF True, of remaining ep'] remaining_next [OF Some]
    show ?thesis
      using is_http_request [of ep' "config (scheduler l)"]
      by (simp add: fetch_settles_def append_events_def pending_requests_def http_calls_def)
  qed
qed

text \<open>With no timer armed, a step other than a call of \<open>start\<close> begins no tick.\<close>

lemma stopped_step:
  assumes "timers l = []" and "\<not> is_start a"
  shows "timers (step gtz l a) = []"
    and "\<exists>evs. history (step gtz l a) = history l @ evs
           \<and> length (http_calls evs) + pending_requests (step gtz l a) \<le> pending_requests l"
proof -
  show "timers (step gtz l a) = []"
    using assms
    by (cases a) (simp_all add: is_start_def stop_def append_events_def timer_fires_def Let_def
        split: option.splits)
  show "\<exists>evs. history (step gtz l a) = history l @ evs
           \<and> length (http_calls evs) + pending_requests (step gtz l a) \<le> pending_requests l"
  proof (cases a)
    case (CallStart now)
    with assms show ?thesis by (simp add: is_start_def)
  next
    case CallStop
    then show ?thesis
      by (simp add: stop_def append_events_def pending_requests_def Let_def split: option.splits)
  next
    case (TimerFires h now)
    with assms show ?thesis by (simp add: timer_fires_def)
  next
    case (FetchSettles k r)
    with fetch_settles_requests [of gtz k r l] show ?thesis by simp
  qed
qed

lemma stopped_run:
  assumes "timers l = []" and "list_all (\<lambda>a. \<not> is_start a) acts"
  shows "\<exists>evs. history (run gtz acts l) = history l @ evs
           \<and> length (http_calls evs) + pending_requests (run gtz acts l) \<le> pending_requests l"
  using assms
proof (induction acts arbitrary: l)
  case Nil
  then show ?case by (simp add: run_def)
next
  case (Cons a acts)
  then have a: "\<not> is_start a" and acts: "list_all (\<lambda>a. \<not> is_start a) acts" by simp_all
  from stopped_step [OF Cons.prems(1) a, of gtz]
  obtain evs1 where t: "timers (step gtz l a) = []"
    and h1: "history (step gtz l a) = history l @ evs1"
    and n1: "length (http_calls evs1) + pending_requests (step gtz l a) \<le> pending_requests l"
    by blast
  from Cons.IH [OF t acts]
  obtain evs2 where h2: "history (run gtz acts (step gtz l a)) = history (step gtz l a) @ evs2"
    and n2: "length (http_calls evs2) + pending_requests (run gtz acts (step gtz l a))
               \<le> pending_requests (step gtz l a)"
    by blast
  have r: "run gtz (a # acts) l = run gtz acts (step gtz l a)" by (simp add: run_def)
  from h1 h2 n1 n2 show ?case
    unfolding r by (intro exI [of _ "evs1 @ evs2"]) simp
qed

lemma stop_running:
  assumes "loop_invariant l" and "running (scheduler l)"
  shows "\<not> running (scheduler (stop l))" and "intervalId (scheduler (stop l)) = None"
    and "timers (stop l) = []" and "in_flight (stop l) = in_flight l"
  using assms
  by (auto simp: loop_invariant_def stop_def append_events_def Let_def split: option.splits)

text \<open>
  C8, as claimed: after \<open>stop()\<close> has returned, no further HTTP call occurs. When
  \<open>stop\<close> is called while the tick begun by \<open>start\<close> waits for the response of
  the queries endpoint, that tick goes on once the request has settled and posts to
  the cleanups endpoint: the events after those of \<open>start\<close> and \<open>stop\<close> contain
  a request.
\<close>

theorem C8_counterexample:
  "\<not> running (scheduler (run never_gt0 [CallStart 0, CallStop] (boot config_multi_default)))
   \<and> timers (run never_gt0 [CallStart 0, CallStop] (boot config_multi_default)) = []
   \<and> drop (length (history (run never_gt0 [CallStart 0, CallStop] (boot config_multi_default))))
        (history (run never_gt0 [CallStart 0, CallStop, FetchSettles 0 connection_refused]
                    (boot config_multi_default)))
      = [console_error [Lit ''[Queries]'', Lit '' Failed to trigger check:'', Lit ''Connection refused''],
         http_POST ''http://localhost:80/api/scheduler/trigger-cleanups'' [] None]"
  by (simp add: run_def boot_def new_LocalScheduler_def config_multi_default_def start_def stop_def
      fetch_settles_def triggerCheck_call_def append_events_def request_def settle_def
      after_fetch_def catch_block_def connection_refused_def error_text_def Let_def)

text \<open>
  C8, amended: the scheduler object is stopped or running. \<open>start\<close> on a stopped
  scheduler makes it running; \<open>start\<close> on a running one only prints a notice, and
  \<open>stop\<close> on a stopped one likewise: the object, the timers and the suspended ticks
  are unchanged and no request is made. \<open>stop\<close> on a running scheduler clears the
  running flag and the timer handle and cancels the timer, so that no tick begins
  after it as long as \<open>start\<close> is not called again: the only HTTP calls after it
  are the remaining requests of the ticks that were suspended when it was called,
  and there is none when no tick was suspended.
\<close>

theorem C8_start_stop:
  "(\<not> running (scheduler l) \<longrightarrow> running (scheduler (start now l)))
   \<and> (running (scheduler l) \<longrightarrow>
        start now l = append_events [console_log [Lit ''[Scheduler] Already running'']] l
        \<and> scheduler (start now l) = scheduler l \<and> timers (start now l) = timers l
        \<and> in_flight (start now l) = in_flight l
        \<and> http_calls (history (start now l)) = http_calls (history l))
   \<and> (\<not> running (scheduler l) \<longrightarrow>
        stop l = append_events [console_log [Lit ''[Scheduler] Not running'']] l
        \<and> scheduler (stop l) = scheduler l \<and> timers (stop l) = timers l
        \<and> in_flight (stop l) = in_flight l
        \<and> http_calls (history (stop l)) = http_calls (history l))
   \<and> (l = run gtz pre (boot cfg) \<and> running (scheduler l) \<longrightarrow>
        \<not> running (scheduler (stop l)) \<and> intervalId (scheduler (stop l)) = None
        \<and> timers (stop l) = []
        \<and> (list_all (\<lambda>a. \<not> is_start a) acts \<longrightarrow>
             (\<exists>evs. history (run gtz acts (stop l)) = history (stop l) @ evs
                    \<and> length (http_calls evs) \<le> pending_requests (stop l)
                    \<and> (in_flight l = [] \<longrightarrow> http_calls evs = []))))"
proof (intro conjI impI)
  show "running (scheduler (start now l))" if "\<not> running (scheduler l)"
    using that by (simp add: start_def append_events_def Let_def)
next
  assume r: "running (scheduler l)"
  then show "start now l = append_events [console_log [Lit ''[Scheduler] Already running'']] l"
    by (simp add: start_def)
  then show "scheduler (start now l) = scheduler l" "timers (start now l) = timers l"
    "in_flight (start now l) = in_flight l"
    "http_calls (history (start now l)) = http_calls (history l)"
    by (simp_all add: append_events_def)
next
  assume r: "\<not> running (scheduler l)"
  then show "stop l = append_events [console_log [Lit ''[Scheduler] Not running'']] l"
    by (simp add: stop_def)
  then show "scheduler (stop l) = scheduler l" "timers (stop l) = timers l"
    "in_flight (stop l) = in_flight l"
    "http_calls (history (stop l)) = http_calls (history l)"
    by (simp_all add: append_events_def)
next
  assume a: "l = run gtz pre (boot cfg) \<and> running (scheduler l)"
  then have e: "l = run gtz pre (boot cfg)" and r: "running (scheduler l)" by blast+
  have inv: "loop_invariant l"
    unfolding e by (rule loop_invariant_run [OF loop_invariant_boot])
  from stop_running [OF inv r]
  show "\<not> running (scheduler (stop l))" "intervalId (scheduler (stop l)) = None"
    "timers (stop l) = []" by simp_all
  assume n: "list_all (\<lambda>a. \<not> is_start a) acts"
  from stopped_run [OF stop_running(3) [OF inv r] n, of gtz]
  obtain evs where h: "history (run gtz acts (stop l)) = history (stop l) @ evs"
    and b: "length (http_calls evs) + pending_requests (run gtz acts (stop l))
              \<le> pending_requests (stop l)"
    by blast
  have "in_flight l = [] \<longrightarrow> http_calls evs = []"
    using b stop_running(4) [OF inv r] by (auto simp: pending_requests_def)
  with h b
  show "\<exists>evs. history (run gtz acts (stop l)) = history (stop l) @ evs
           \<and> length (http_calls evs) \<le> pending_requests (stop l)
           \<and> (in_flight l = [] \<longrightarrow> http_calls evs = [])"
    by (intro exI [of _ evs]) simp
qed


lemma started_example:
  "running (scheduler (run never_gt0 [CallStart 0] (boot config_multi_default)))"
  "\<not> running (scheduler (boot config_multi_default))"
  "list_all (\<lambda>a. \<not> is_start a) [TimerFires 0 60000, FetchSettles 0 connection_refused]"
  by (simp_all add: run_def boot_def new_LocalScheduler_def start_def append_events_def
      triggerCheck_call_def is_start_def Let_def)

theorem C8_witness:
  "\<not> running (scheduler (boot config_multi_default))
   \<and> running (scheduler (start 0 (boot config_multi_default)))
   \<and> stop (boot config_multi_default) =
       append_events [console_log [Lit ''[Scheduler] Not running'']] (boot config_multi_default)
   \<and> running (scheduler (run never_gt0 [CallStart 0] (boot config_multi_default)))
   \<and> start 7 (run never_gt0 [CallStart 0] (boot config_multi_default)) =
       append_events [console_log [Lit ''[Scheduler] Already running'']]
         (run never_gt0 [CallStart 0] (boot config_multi_default))
   \<and> \<not> running (scheduler (stop (run never_gt0 [CallStart 0] (boot config_multi_default))))
   \<and> timers (stop (run never_gt0 [CallStart 0] (boot config_multi_default))) = []
   \<and> list_all (\<lambda>a. \<not> is_start a) [TimerFires 0 60000, FetchSettles 0 connection_refused]
   \<and> (\<exists>evs. history (run never_gt0 [TimerFires 0 60000, FetchSettles 0 connection_refused]
                        (stop (run never_gt0 [CallStart 0] (boot config_multi_default))))
               = history (stop (run never_gt0 [CallStart 0] (boot config_multi_default))) @ evs
              \<and> length (http_calls evs)
                  \<le> pending_requests (stop (run never_gt0 [CallStart 0] (boot config_multi_default))))"
  using C8_start_stop [where l = "boot config_multi_default" and now = 0 and gtz = never_gt0
        and pre = "[]" and cfg = config_multi_default
        and acts = "[TimerFires 0 60000, FetchSettles 0 connection_refused]"]
    C8_start_stop [where l = "run never_gt0 [CallStart 0] (boot config_multi_default)" and now = 7
        and gtz = never_gt0 and pre = "[CallStart 0]" and cfg = config_multi_default
        and acts = "[TimerFires 0 60000, FetchSettles 0 connection_refused]"]
    started_example
  by blast

section \<open>The success rate in double precision\<close>

lemma two_powi_pos: "0 < (2::rat) powi k"
  by (simp add: zero_less_power_int)

lemma bitlen_lower: "0 < a \<Longrightarrow> (2::rat) powi (bitlen a - 1) \<le> of_int a"
proof -
  assume a: "0 < a"
  then have "1 \<le> bitlen a" using bitlen_eq_zero_iff [of a] bitlen_nonneg [of a] by linarith
  then have e: "(2::rat) powi (bitlen a - 1) = 2 ^ nat (bitlen a - 1)"
    by (simp add: power_int_def)
  from bitlen_bounds [OF a] have "(2::int) ^ nat (bitlen a - 1) \<le> a" by simp
  then have "of_int ((2::int) ^ nat (bitlen a - 1)) \<le> (of_int a :: rat)" by (simp only: of_int_le_iff)
  with e show ?thesis by simp
qed

lemma bitlen_upper: "0 < a \<Longrightarrow> of_int a < (2::rat) powi (bitlen a)"
proof -
  assume a: "0 < a"
  have e: "(2::rat) powi (bitlen a) = 2 ^ nat (bitlen a)"
    using bitlen_nonneg [of a] by (simp add: power_int_def)
  from bitlen_bounds [OF a] have "a < (2::int) ^ nat (bitlen a)" by simp
  then have "(of_int a :: rat) < of_int ((2::int) ^ nat (bitlen a))" by (simp only: of_int_less_iff)
  with e show ?thesis by simp
qed

lemma exponent_bounds:
  assumes "0 < x"
  shows "2 powi (exponent x) \<le> x" and "x < 2 powi (exponent x + 1)"
proof -
  obtain a b where q: "quotient_of x = (a, b)" by (cases "quotient_of x")
  then have b: "0 < b" and x: "x = of_int a / of_int b"
    using quotient_of_denom_pos [OF q] quotient_of_div [OF q] by simp_all
  with assms have a: "0 < a" by (simp add: zero_less_divide_iff)
  let ?d = "bitlen a - bitlen b"
  have bq: "(0::rat) < of_int b" using b by simp
  have lo: "(2::rat) powi (?d - 1) < x"
  proof -
    have "(2::rat) powi (?d - 1) = 2 powi (bitlen a - 1) / 2 powi (bitlen b)"
      by (simp add: power_int_diff)
    also have "\<dots> \<le> of_int a / 2 powi (bitlen b)"
      using bitlen_lower [OF a] two_powi_pos [of "bitlen b"] by (simp add: divide_right_mono)
    also have "\<dots> < of_int a / of_int b"
      using bitlen_upper [OF b] a bq by (simp add: divide_strict_left_mono)
    finally show ?thesis using x by simp
  qed
  have hi: "x < (2::rat) powi (?d + 1)"
  proof -
    have "x = of_int a / of_int b" by (rule x)
    also have "\<dots> < 2 powi (bitlen a) / of_int b"
      using bitlen_upper [OF a] bq by (simp add: divide_strict_right_mono)
    also have "\<dots> \<le> 2 powi (bitlen a) / 2 powi (bitlen b - 1)"
      using bitlen_lower [OF b] two_powi_pos [of "bitlen b - 1"] two_powi_pos [of "bitlen a"]
      by (intro frac_le) simp_all
    also have "\<dots> = (2::rat) powi (?d + 1)"
      by (simp add: power_int_diff power_int_add)
    finally show ?thesis .
  qed
  have e: "exponent x = (if 2 powi ?d \<le> x then ?d else ?d - 1)"
    using q by (simp add: exponent_def)
  show "2 powi (exponent x) \<le> x" using lo e by (simp split: if_splits)
  show "x < 2 powi (exponent x + 1)" using hi e by (simp split: if_splits)
qed

lemma round_half_even_error: "\<bar>of_int (round_half_even m) - m\<bar> \<le> (1 / 2 :: rat)"
proof -
  define f where "f = \<lfloor>m\<rfloor>"
  have f: "of_int f \<le> m" "m < of_int f + 1" unfolding f_def by linarith+
  have "round_half_even m =
          (if m - of_int f < 1 / 2 then f else if 1 / 2 < m - of_int f then f + 1
           else if even f then f else f + 1)"
    by (simp add: round_half_even_def Let_def f_def)
  with f show ?thesis by (simp split: if_splits)
qed

lemma round_half_even_nonneg: "0 \<le> m \<Longrightarrow> 0 \<le> round_half_even m"
  by (auto simp: round_half_even_def Let_def)

lemma to_double_nonneg: "0 \<le> x \<Longrightarrow> 0 \<le> to_double x"
  using round_half_even_nonneg [of "x / 2 powi (exponent \<bar>x\<bar> - 52)"] two_powi_pos [of "exponent \<bar>x\<bar> - 52"]
  by (simp add: to_double_def Let_def)

lemma to_double_error:
  assumes "0 < x"
  shows "\<bar>to_double x - x\<bar> \<le> x / 2 ^ 53"
proof -
  let ?e = "exponent x"
  let ?u = "(2::rat) powi (?e - 52)"
  have u: "0 < ?u" by (rule two_powi_pos)
  have d: "to_double x = of_int (round_half_even (x / ?u)) * ?u"
    using assms by (simp add: to_double_def Let_def)
  have "\<bar>to_double x - x\<bar> = \<bar>of_int (round_half_even (x / ?u)) - x / ?u\<bar> * ?u"
  proof -
    have "to_double x - x = (of_int (round_half_even (x / ?u)) - x / ?u) * ?u"
      using u d by (simp add: field_simps)
    then show ?thesis using u by (simp add: abs_mult)
  qed
  also have "\<dots> \<le> 1 / 2 * ?u"
    using round_half_even_error [of "x / ?u"] u by (simp add: mult_right_mono)
  also have "\<dots> = 2 powi ?e / 2 ^ 53"
  proof -
    have "(2::rat) powi (?e - 52) = 2 powi ?e / 2 powi 52" by (simp add: power_int_diff)
    then show ?thesis by simp
  qed
  also have "\<dots> \<le> x / 2 ^ 53"
    using exponent_bounds(1) [OF assms] by (simp add: divide_right_mono)
  finally show ?thesis .
qed


lemma rate_double_error:
  assumes "0 < t" and "s \<le> t"
  shows "\<bar>double_mul (double_div (of_nat s) (of_nat t)) 100 - 100 * (of_nat s / of_nat t)\<bar>
           \<le> (1 / 10 ^ 13 :: rat)"
    and "0 \<le> double_mul (double_div (of_nat s) (of_nat t)) 100"
proof -
  let ?x = "of_nat s / of_nat t :: rat"
  let ?q = "double_div (of_nat s) (of_nat t)"
  let ?p = "double_mul ?q 100"
  let ?eps = "1 / 2 ^ 53 :: rat"
  have x0: "0 \<le> ?x" "?x \<le> 1" using assms by simp_all
  have q0: "0 \<le> ?q" using x0 by (simp add: double_div_def to_double_nonneg)
  show p0: "0 \<le> ?p" using q0 by (simp add: double_mul_def to_double_nonneg)
  have qe: "\<bar>?q - ?x\<bar> \<le> ?x * ?eps"
  proof (cases "s = 0")
    case True
    then show ?thesis by (simp add: double_div_def to_double_def)
  next
    case False
    with assms have "0 < ?x" by simp
    from to_double_error [OF this] show ?thesis by (simp add: double_div_def)
  qed
  have pe: "\<bar>?p - ?q * 100\<bar> \<le> ?q * 100 * ?eps"
  proof (cases "?q = 0")
    case True
    then show ?thesis by (simp add: double_mul_def to_double_def)
  next
    case False
    with q0 have "0 < ?q * 100" by simp
    from to_double_error [OF this] show ?thesis by (simp add: double_mul_def)
  qed
  have q1: "?q \<le> 1 + ?eps"
  proof -
    have "?q \<le> ?x + ?x * ?eps" using qe by linarith
    also have "\<dots> \<le> 1 + 1 * ?eps" using x0 by (intro add_mono mult_right_mono) simp_all
    finally show ?thesis by simp
  qed
  have tri: "\<bar>p - 100 * x\<bar> \<le> \<bar>p - q * 100\<bar> + 100 * \<bar>q - x\<bar>" for p q x :: rat
    by (auto simp: abs_if)
  have "\<bar>?p - 100 * ?x\<bar> \<le> \<bar>?p - ?q * 100\<bar> + 100 * \<bar>?q - ?x\<bar>" by (rule tri)
  also have "\<dots> \<le> ?q * 100 * ?eps + 100 * (?x * ?eps)"
    using pe qe by (intro add_mono) simp_all
  also have "\<dots> \<le> (1 + ?eps) * 100 * ?eps + 100 * (1 * ?eps)"
    using q1 x0 by (intro add_mono mult_right_mono mult_left_mono) simp_all
  also have "\<dots> \<le> 1 / 10 ^ 13" by simp
  finally show "\<bar>?p - 100 * ?x\<bar> \<le> 1 / 10 ^ 13" .
qed

lemma rate_exact_unless_tie:
  assumes t: "0 < t" "t \<le> 10 ^ 11" and st: "s \<le> t" and nt: "\<not> rounding_tie s t"
  shows "int (toFixed1_tenths (double_mul (double_div (of_nat s) (of_nat t)) 100))
           = rounded_percentage_tenths s t"
proof -
  let ?p = "double_mul (double_div (of_nat s) (of_nat t)) 100"
  let ?y = "10 * (of_nat s / of_nat t * 100) :: rat"
  define r where "r = rounded_percentage_tenths s t"
  have r: "of_int r \<le> ?y + 1 / 2" "?y + 1 / 2 < of_int r + 1"
    unfolding r_def rounded_percentage_tenths_def by linarith+
  have tq: "(0::rat) < of_nat t" using t by simp
  define N where "N = 2000 * int s + int t - 2 * r * int t"
  have yN: "?y + 1 / 2 - of_int r = of_int N / (2 * of_nat t)"
    using tq by (simp add: N_def field_simps)
  have N0: "0 \<le> N"
  proof -
    have "0 \<le> of_int N / (2 * of_nat t :: rat)" using r(1) yN by linarith
    then show ?thesis using tq by (simp add: zero_le_divide_iff)
  qed
  have N1: "N \<noteq> 0"
  proof
    assume "N = 0"
    then have e: "2000 * int s = (2 * r - 1) * int t" by (simp add: N_def algebra_simps)
    have "0 \<le> 2 * r - 1"
    proof (rule ccontr)
      assume "\<not> 0 \<le> 2 * r - 1"
      then have "2 * r - 1 < 0" by simp
      then have "(2 * r - 1) * int t < 0" using t by (simp add: mult_less_0_iff)
      with e show False by simp
    qed
    then obtain m where m: "2 * r - 1 = int m" using nonneg_int_cases by blast
    with e have "int (2000 * s) = int (m * t)" by simp
    then have e': "2000 * s = m * t" by (simp only: of_nat_eq_iff)
    have "odd (2 * r - 1)" by simp
    with m have "odd m" by simp
    with e' t have "rounding_tie s t" by (simp add: rounding_tie_def)
    with nt show False by simp
  qed
  from N0 N1 have "1 \<le> N" by simp
  then have "(1::rat) \<le> of_int N" by simp
  then have "1 / (2 * of_nat t) \<le> of_int N / (2 * of_nat t :: rat)"
    using tq by (simp add: divide_right_mono)
  moreover have "(5::rat) / 10 ^ 12 \<le> 1 / (2 * of_nat t)"
  proof -
    have "(of_nat t :: rat) \<le> of_nat (10 ^ 11)" using t(2) by (simp only: of_nat_le_iff)
    then have "2 * (of_nat t :: rat) \<le> 2 * 10 ^ 11" by simp
    then have "1 / (2 * 10 ^ 11) \<le> 1 / (2 * of_nat t :: rat)"
      using tq by (intro divide_left_mono) simp_all
    then show ?thesis by simp
  qed
  ultimately have lo: "5 / 10 ^ 12 \<le> ?y + 1 / 2 - of_int r" using yN by linarith
  define M where "M = 2 * r * int t + int t - 2000 * int s"
  have yM: "of_int r + 1 - (?y + 1 / 2) = of_int M / (2 * of_nat t)"
    using tq by (simp add: M_def field_simps)
  have "0 < of_int M / (2 * of_nat t :: rat)" using r(2) yM by linarith
  then have "0 < M" using tq by (simp add: zero_less_divide_iff)
  then have "(1::rat) \<le> of_int M" by simp
  then have "1 / (2 * of_nat t) \<le> of_int M / (2 * of_nat t :: rat)"
    using tq by (simp add: divide_right_mono)
  with \<open>(5::rat) / 10 ^ 12 \<le> 1 / (2 * of_nat t)\<close> yM
  have hi: "5 / 10 ^ 12 \<le> of_int r + 1 - (?y + 1 / 2)" by linarith
  have pe: "\<bar>?p - 100 * (of_nat s / of_nat t)\<bar> \<le> 1 / 10 ^ 13" and p0: "0 \<le> ?p"
    using rate_double_error [OF t(1) st] by simp_all
  have ye: "\<bar>10 * ?p - ?y\<bar> \<le> 1 / 10 ^ 12"
  proof -
    have "10 * ?p - ?y = 10 * (?p - 100 * (of_nat s / of_nat t))" by simp
    then have "\<bar>10 * ?p - ?y\<bar> = 10 * \<bar>?p - 100 * (of_nat s / of_nat t)\<bar>"
      by (simp only: abs_mult)
    with pe show ?thesis by simp
  qed
  have "of_int r \<le> 10 * ?p + 1 / 2" "10 * ?p + 1 / 2 < of_int r + 1"
    using lo hi ye by (auto simp: abs_if split: if_splits)
  then have "\<lfloor>10 * ?p + 1 / 2\<rfloor> = r" by (simp add: floor_unique)
  moreover have "0 \<le> \<lfloor>10 * ?p + 1 / 2\<rfloor>" using p0 by simp
  ultimately show ?thesis by (simp add: toFixed1_tenths_def r_def)
qed

lemma rate_error:
  assumes "0 < t" and "s \<le> t"
  shows "\<bar>of_nat (toFixed1_tenths (double_mul (double_div (of_nat s) (of_nat t)) 100)) / 10
          - 100 * of_nat s / of_nat t\<bar> \<le> (1 / 20 + 1 / 10 ^ 13 :: rat)"
proof -
  let ?p = "double_mul (double_div (of_nat s) (of_nat t)) 100"
  have pb: "\<bar>?p - 100 * (of_nat s / of_nat t)\<bar> \<le> 1 / 10 ^ 13" and p0: "0 \<le> ?p"
    using rate_double_error [OF assms] by simp_all
  define k where "k = \<lfloor>10 * ?p + 1 / 2\<rfloor>"
  have k: "of_int k \<le> 10 * ?p + 1 / 2" "10 * ?p + 1 / 2 < of_int k + 1"
    unfolding k_def by linarith+
  have "0 \<le> k" unfolding k_def using p0 by simp
  then have n: "(of_nat (toFixed1_tenths ?p) :: rat) = of_int k"
    by (simp add: toFixed1_tenths_def k_def)
  have "\<bar>of_int k / 10 - ?p\<bar> \<le> 1 / 20" using k by (auto simp: abs_if)
  with pb have "\<bar>of_int k / 10 - 100 * (of_nat s / of_nat t)\<bar> \<le> (1 / 20 + 1 / 10 ^ 13 :: rat)"
    by linarith
  with n show ?thesis by simp
qed

text \<open>The model of double rounding on values that are doubles, and on one that is not.\<close>

lemma to_double_examples:
  "to_double 100 = 100" "to_double (1 / 2) = 1 / 2" "to_double (2 ^ 53 + 1) = 2 ^ 53"
  "to_double (1 / 10) = 3602879701896397 / 2 ^ 55"
  by code_simp+

lemma successful_le_total:
  "successfulTriggers s \<le> totalTriggers s \<Longrightarrow>
     successfulTriggers (snd (triggerScheduler u k io s)) \<le> totalTriggers (snd (triggerScheduler u k io s))"
  by (auto simp: triggerScheduler_def trigger_try_def trigger_catch_def emit_def Let_def
      split: prod.splits completion.splits settled.splits if_splits)

lemma statistics_printed:
  "console_log [Lit ''Success Rate: '',
                success_rate (successfulTriggers (snd (triggerScheduler u k io s)))
                             (totalTriggers (snd (triggerScheduler u k io s))),
                Lit ''%'']
     \<in> set (trace (snd (triggerScheduler u k io s)))"
  by (auto simp: triggerScheduler_def trigger_try_def trigger_catch_def emit_def Let_def
      print_statistics_def split: prod.splits completion.splits settled.splits if_splits)

lemma rate_23_80:
  "success_rate 23 80 = Lit ''28.7''"
  "rounded_percentage_tenths 23 80 = 288"
  "round_half_even (10 * (23 / 80 * 100)) = 288"
  by code_simp+

lemma tie_23_80: "rounding_tie 23 80"
  by (simp add: rounding_tie_def)

text \<open>At another tie, 1 success in 16 attempts (6.25), the rate reported is rounded up.\<close>

lemma rate_1_16: "success_rate 1 16 = Lit ''6.3''" "rounded_percentage_tenths 1 16 = 63"
  by code_simp+

lemma tie_1_16: "rounding_tie 1 16"
  by (simp add: rounding_tie_def)

text \<open>
  C5, as claimed: the reported success rate equals the percentage rounded to one
  decimal place. With 23 successes in 80 attempts the percentage is 28.75, which
  rounds to 28.8 (rounding a tie up, or to even); the rate reported is 28.7,
  because the double computed for \<open>(23 / 80) * 100\<close> lies below 28.75.
\<close>

theorem C5_counterexample:
  "success_rate 23 80 = Lit ''28.7''
   \<and> rounding_tie 23 80
   \<and> rounded_percentage_tenths 23 80 = 288
   \<and> round_half_even (10 * (23 / 80 * 100)) = 288"
  using rate_23_80 tie_23_80 by simp

text \<open>
  C5, amended: when \<open>totalTriggers\<close> is zero the rate reported is 0 and nothing is
  divided. Otherwise the rate reported is the double \<open>(successful / total) * 100\<close>
  printed by \<open>toFixed(1)\<close>; it differs from the exact percentage by at most
  \<open>0.05 + 10^-13\<close> (for counters up to \<open>2^53\<close>, which a double holds exactly),
  and it equals the exact percentage rounded to one decimal place unless the exact
  percentage lies halfway between two tenths (for totals up to \<open>10^11\<close>). The line
  with this rate is printed by every call of \<open>triggerScheduler\<close>.
\<close>

theorem C5_success_rate:
  "success_rate successful_n 0 = CountV 0
   \<and> (0 < total_n \<and> total_n \<le> 2 ^ 53 \<and> successful_n \<le> total_n \<longrightarrow>
        success_rate successful_n total_n =
          Lit (show_tenths (toFixed1_tenths
                 (double_mul (double_div (of_nat successful_n) (of_nat total_n)) 100)))
        \<and> \<bar>of_nat (toFixed1_tenths
                 (double_mul (double_div (of_nat successful_n) (of_nat total_n)) 100)) / 10
            - 100 * of_nat successful_n / of_nat total_n\<bar> \<le> (1 / 20 + 1 / 10 ^ 13 :: rat))
   \<and> (0 < total_n \<and> total_n \<le> 10 ^ 11 \<and> successful_n \<le> total_n
        \<and> \<not> rounding_tie successful_n total_n \<longrightarrow>
        success_rate successful_n total_n =
          Lit (show_tenths (nat (rounded_percentage_tenths successful_n total_n))))
   \<and> console_log [Lit ''Success Rate: '',
                   success_rate (successfulTriggers (snd (triggerScheduler endpointUrl secret io s)))
                                (totalTriggers (snd (triggerScheduler endpointUrl secret io s))),
                   Lit ''%'']
       \<in> set (trace (snd (triggerScheduler endpointUrl secret io s)))"
proof (intro conjI impI)
  show "success_rate successful_n 0 = CountV 0" by (simp add: success_rate_def)
next
  assume a: "0 < total_n \<and> total_n \<le> 2 ^ 53 \<and> successful_n \<le> total_n"
  then show "success_rate successful_n total_n =
      Lit (show_tenths (toFixed1_tenths
             (double_mul (double_div (of_nat successful_n) (of_nat total_n)) 100)))"
    by (simp add: success_rate_def toFixed1_def)
  from a rate_error [of total_n successful_n]
  show "\<bar>of_nat (toFixed1_tenths
               (double_mul (double_div (of_nat successful_n) (of_nat total_n)) 100)) / 10
          - 100 * of_nat successful_n / of_nat total_n\<bar> \<le> (1 / 20 + 1 / 10 ^ 13 :: rat)"
    by simp
next
  assume a: "0 < total_n \<and> total_n \<le> 10 ^ 11 \<and> successful_n \<le> total_n
             \<and> \<not> rounding_tie successful_n total_n"
  then have "int (toFixed1_tenths
               (double_mul (double_div (of_nat successful_n) (of_nat total_n)) 100))
             = rounded_percentage_tenths successful_n total_n"
    using rate_exact_unless_tie [of total_n successful_n] by simp
  then have "toFixed1_tenths (double_mul (double_div (of_nat successful_n) (of_nat total_n)) 100)
             = nat (rounded_percentage_tenths successful_n total_n)"
    by linarith
  with a show "success_rate successful_n total_n =
      Lit (show_tenths (nat (rounded_percentage_tenths successful_n total_n)))"
    by (simp add: success_rate_def toFixed1_def)
next
  show "console_log [Lit ''Success Rate: '',
                   success_rate (successfulTriggers (snd (triggerScheduler endpointUrl secret io s)))
                                (totalTriggers (snd (triggerScheduler endpointUrl secret io s))),
                   Lit ''%'']
       \<in> set (trace (snd (triggerScheduler endpointUrl secret io s)))"
    by (rule statistics_printed)
qed

lemma no_tie_2_3: "\<not> rounding_tie 2 3"
  by (simp add: rounding_tie_def)

lemma rate_2_3:
  "nat (rounded_percentage_tenths 2 3) = 667" "show_tenths 667 = ''66.7''"
  by code_simp+

theorem C5_witness:
  "(0::nat) < 3 \<and> (3::nat) \<le> 10 ^ 11 \<and> (3::nat) \<le> 2 ^ 53 \<and> (2::nat) \<le> 3
   \<and> \<not> rounding_tie 2 3
   \<and> success_rate 2 3 = Lit ''66.7''
   \<and> \<bar>of_nat (toFixed1_tenths (double_mul (double_div (of_nat 2) (of_nat 3)) 100)) / 10
        - 100 * of_nat 2 / of_nat 3\<bar> \<le> (1 / 20 + 1 / 10 ^ 13 :: rat)"
proof -
  have h: "(0::nat) < 3 \<and> (3::nat) \<le> 10 ^ 11 \<and> (3::nat) \<le> 2 ^ 53 \<and> (2::nat) \<le> 3
           \<and> \<not> rounding_tie 2 3"
    using no_tie_2_3 by simp
  from C5_success_rate [of 2 3 endpointUrl secret io s] h
  have "success_rate 2 3 = Lit (show_tenths (nat (rounded_percentage_tenths 2 3)))"
    and "\<bar>of_nat (toFixed1_tenths (double_mul (double_div (of_nat 2) (of_nat 3)) 100)) / 10
          - 100 * of_nat 2 / of_nat 3\<bar> \<le> (1 / 20 + 1 / 10 ^ 13 :: rat)"
    by blast+
  with h rate_2_3 show ?thesis by simp
qed

end
